theory Spec2Isabelle
  imports Main
begin

section \<open>Python values\<close>

text \<open>
  A Python \<open>str\<close> is a sequence of Unicode code points; it is modelled as the list of
  the code points. \<open>ustr\<close> turns an ASCII literal into such a string.
\<close>

type_synonym pystr = "nat list"

definition ustr :: "string \<Rightarrow> pystr" where
  "ustr s = map of_char s"

text \<open>The exceptions the modelled functions can raise.\<close>

datatype error = ValueError | TypeError | AttributeError | IndexError

text \<open>
  The cells of a supplier row as \<open>pandas.read_excel\<close> delivers them: text, an integer,
  or nothing (\<open>dict.get\<close> of a missing key gives \<open>None\<close>). The spec's supplier row has
  text in all three columns.
\<close>

datatype pyval = PNone | PStr pystr | PInt int

text \<open>\<open>str(x)\<close>: a string is returned as it is, an integer in decimal notation.\<close>

fun nat_digits :: "nat \<Rightarrow> pystr" where
  "nat_digits n = (if n < 10 then [48 + n] else nat_digits (n div 10) @ [48 + n mod 10])"

declare nat_digits.simps [simp del]

definition int_str :: "int \<Rightarrow> pystr" where
  "int_str i = (if i < 0 then 45 # nat_digits (nat (- i)) else nat_digits (nat i))"

fun py_str :: "pyval \<Rightarrow> pystr" where
  "py_str PNone = ustr ''None''"
| "py_str (PStr s) = s"
| "py_str (PInt i) = int_str i"

text \<open>
  \<open>int(x)\<close> is a builtin of Python, not code of the repository: the reconcilers below
  take the conversion as their parameter \<open>to_int\<close>, and their theorems hold whatever it
  computes. \<open>py_int\<close> is the builtin on \<open>None\<close>, on an integer and on ASCII text
  (optional blanks around an optional sign and decimal digits, single underscores
  allowed between digits); it is what the concrete evaluations use. Code points
  above 127 are rejected here, although Python also reads the decimal digits and
  blanks of other scripts.
\<close>

definition is_0_9 :: "nat \<Rightarrow> bool" where
  "is_0_9 c = (48 \<le> c \<and> c \<le> 57)"

definition is_blank :: "nat \<Rightarrow> bool" where
  "is_blank c = (c = 32 \<or> (9 \<le> c \<and> c \<le> 13))"

fun digits_value :: "nat \<Rightarrow> pystr \<Rightarrow> nat option" where
  "digits_value acc [] = Some acc"
| "digits_value acc [c] = (if is_0_9 c then Some (10 * acc + (c - 48)) else None)"
| "digits_value acc (c # d # cs) =
     (if is_0_9 c then digits_value (10 * acc + (c - 48)) (d # cs)
      else if c = 95 \<and> is_0_9 d then digits_value (10 * acc + (d - 48)) cs
      else None)"

definition unsigned_value :: "pystr \<Rightarrow> nat option" where
  "unsigned_value s =
     (case s of [] \<Rightarrow> None
      | c # cs \<Rightarrow> if is_0_9 c then digits_value (c - 48) cs else None)"

definition strip_blanks :: "pystr \<Rightarrow> pystr" where
  "strip_blanks s = rev (dropWhile is_blank (rev (dropWhile is_blank s)))"

definition int_of_text :: "pystr \<Rightarrow> error + int" where
  "int_of_text s =
     (if \<exists>c \<in> set s. 128 \<le> c then Inl ValueError
      else case strip_blanks s of
        [] \<Rightarrow> Inl ValueError
      | c # cs \<Rightarrow>
          if c = 45 then
            (case unsigned_value cs of None \<Rightarrow> Inl ValueError | Some v \<Rightarrow> Inr (- int v))
          else if c = 43 then
            (case unsigned_value cs of None \<Rightarrow> Inl ValueError | Some v \<Rightarrow> Inr (int v))
          else
            (case unsigned_value (c # cs) of None \<Rightarrow> Inl ValueError | Some v \<Rightarrow> Inr (int v)))"

fun py_int :: "pyval \<Rightarrow> error + int" where
  "py_int PNone = Inl TypeError"
| "py_int (PInt i) = Inr i"
| "py_int (PStr s) = int_of_text s"

text \<open>
  \<open>s.split(sep)\<close> for a separator of one character, and \<open>xs[i]\<close> with Python's
  negative indices and its \<open>IndexError\<close>.
\<close>

fun py_split :: "nat \<Rightarrow> pystr \<Rightarrow> pystr list" where
  "py_split sep [] = [[]]"
| "py_split sep (c # cs) =
     (if c = sep then [] # py_split sep cs
      else case py_split sep cs of
             [] \<Rightarrow> [[c]]
           | part # parts \<Rightarrow> (c # part) # parts)"

definition getitem :: "'a list \<Rightarrow> int \<Rightarrow> error + 'a" where
  "getitem xs i =
     (if 0 \<le> i \<and> i < int (length xs) then Inr (xs ! nat i)
      else if i < 0 \<and> 0 \<le> int (length xs) + i then Inr (xs ! nat (int (length xs) + i))
      else Inl IndexError)"

text \<open>\<open>list.remove(x)\<close> deletes the first element equal to \<open>x\<close> and raises when there is none.\<close>

definition list_remove :: "'a \<Rightarrow> 'a list \<Rightarrow> error + 'a list" where
  "list_remove x xs = (if x \<in> set xs then Inr (remove1 x xs) else Inl ValueError)"

text \<open>A supplier row is a dictionary; \<open>watch.get(key)\<close> gives \<open>None\<close> for a missing key.\<close>

type_synonym watch = "pystr \<rightharpoonup> pyval"

definition dict_get :: "watch \<Rightarrow> pystr \<Rightarrow> pyval" where
  "dict_get w k = (case w k of None \<Rightarrow> PNone | Some v \<Rightarrow> v)"

text \<open>
  The column names of the feed: the Russian words for code, quantity and price, as code
  points. The source writes them as string literals in Cyrillic; the quotations of the
  source below write \<open>Kod\<close>, \<open>Kolichestvo\<close> and \<open>Tsena\<close> in their place.
\<close>

definition Kod :: pystr where
  "Kod = [1050, 1086, 1076]"

definition Kolichestvo :: pystr where
  "Kolichestvo = [1050, 1086, 1083, 1080, 1095, 1077, 1089, 1090, 1074, 1086]"

definition Tsena :: pystr where
  "Tsena = [1062, 1077, 1085, 1072]"

section \<open>The price normalizer: \<open>price_conversion\<close> (seller.py)\<close>

text \<open>
  \<^verbatim>\<open>
  def price_conversion(price: str) -> str:
      return re.sub("[^0-9]", "", price.split(".")[0])
  \<close>
  The pattern \<open>[^0-9]\<close> matches one character outside the range from code point 48 to
  code point 57; replacing every match by the empty string keeps exactly the others.
  A value that is not a string has no method \<open>split\<close>.
\<close>

definition re_sub_not_0_9 :: "pystr \<Rightarrow> pystr" where
  "re_sub_not_0_9 s = filter is_0_9 s"

fun price_conversion :: "pyval \<Rightarrow> error + pystr" where
  "price_conversion (PStr price) =
     (case getitem (py_split 46 price) 0 of
        Inl e \<Rightarrow> Inl e
      | Inr whole \<Rightarrow> Inr (re_sub_not_0_9 whole))"
| "price_conversion PNone = Inl AttributeError"
| "price_conversion (PInt i) = Inl AttributeError"

section \<open>The chunker: \<open>divide\<close> (seller.py)\<close>

text \<open>
  \<open>range(start, stop, step)\<close>: a zero step raises \<open>ValueError\<close>, a positive step counts
  up while the index is below \<open>stop\<close>, a negative step counts down while it is above.
\<close>

function range_up :: "int \<Rightarrow> int \<Rightarrow> int \<Rightarrow> int list" where
  "range_up i stop step =
     (if 0 < step \<and> i < stop then i # range_up (i + step) stop step else [])"
  by pat_completeness auto
termination
  by (relation "measure (\<lambda>(i, stop, step). nat (stop - i))") auto

function range_down :: "int \<Rightarrow> int \<Rightarrow> int \<Rightarrow> int list" where
  "range_down i stop step =
     (if step < 0 \<and> stop < i then i # range_down (i + step) stop step else [])"
  by pat_completeness auto
termination
  by (relation "measure (\<lambda>(i, stop, step). nat (i - stop))") auto

declare range_up.simps [simp del] range_down.simps [simp del]

definition py_range :: "int \<Rightarrow> int \<Rightarrow> int \<Rightarrow> error + int list" where
  "py_range start stop step =
     (if step = 0 then Inl ValueError
      else if 0 < step then Inr (range_up start stop step)
      else Inr (range_down start stop step))"

text \<open>
  The slice \<open>lst[i:j]\<close>: a negative bound counts from the end, both bounds are clamped
  to the list, and an empty or reversed interval gives the empty list.
\<close>

definition slice_bound :: "int \<Rightarrow> int \<Rightarrow> int" where
  "slice_bound n i = (if i < 0 then max (i + n) 0 else min i n)"

definition py_slice :: "'a list \<Rightarrow> int \<Rightarrow> int \<Rightarrow> 'a list" where
  "py_slice lst i j =
     (let n = int (length lst); lo = slice_bound n i; hi = slice_bound n j
      in take (nat (hi - lo)) (drop (nat lo) lst))"

text \<open>
  \<^verbatim>\<open>
  def divide(lst: list, n: int):
      for i in range(0, len(lst), n):
          yield lst[i: i + n]
  \<close>
  \<open>divide\<close> is a generator; every caller consumes it at once with \<open>list(divide(...))\<close>,
  and that is what the model computes: the list of the chunks, or the exception raised
  while the generator runs.
\<close>

definition divide_list :: "'a list \<Rightarrow> int \<Rightarrow> error + 'a list list" where
  "divide_list lst n =
     (case py_range 0 (int (length lst)) n of
        Inl e \<Rightarrow> Inl e
      | Inr idx \<Rightarrow> Inr (map (\<lambda>i. py_slice lst i (i + n)) idx))"

section \<open>The stock reconciler: \<open>create_stocks\<close>\<close>

text \<open>
  The quantity of a matched row (both variants, seller.py and market.py):
  \<^verbatim>\<open>
  count = str(watch.get(Kolichestvo))
  if count == ">10":
      stock = 100
  elif count == "1":
      stock = 0
  else:
      stock = int(watch.get(Kolichestvo))
  \<close>
\<close>

definition resolve_stock :: "(pyval \<Rightarrow> error + int) \<Rightarrow> watch \<Rightarrow> error + int" where
  "resolve_stock to_int w =
     (let count = py_str (dict_get w Kolichestvo)
      in if count = ustr ''>10'' then Inr 100
         else if count = ustr ''1'' then Inr 0
         else to_int (dict_get w Kolichestvo))"

subsection \<open>Ozon (seller.py)\<close>

text \<open>The dictionary \<open>{"offer_id": ..., "stock": ...}\<close>.\<close>

record ozon_stock =
  offer_id :: pystr
  stock :: int

text \<open>
  \<^verbatim>\<open>
  stocks = []
  for watch in watch_remnants:
      if str(watch.get(Kod)) in offer_ids:
          ...
          stocks.append({"offer_id": str(watch.get(Kod)), "stock": stock})
          offer_ids.remove(str(watch.get(Kod)))
  for offer_id in offer_ids:
      stocks.append({"offer_id": offer_id, "stock": 0})
  return stocks
  \<close>
  \<open>offer_ids\<close> is the caller's list and the function changes it, so the model returns
  the list as the call leaves it beside the result; an exception leaves the removals
  made before it.
\<close>

fun stocks_loop ::
  "(pyval \<Rightarrow> error + int) \<Rightarrow> watch list \<Rightarrow> ozon_stock list \<times> pystr list
   \<Rightarrow> (error + ozon_stock list) \<times> pystr list" where
  "stocks_loop to_int [] (stocks, offer_ids) = (Inr stocks, offer_ids)"
| "stocks_loop to_int (w # rest) (stocks, offer_ids) =
     (if py_str (dict_get w Kod) \<in> set offer_ids then
        (case resolve_stock to_int w of
           Inl e \<Rightarrow> (Inl e, offer_ids)
         | Inr n \<Rightarrow>
            (case list_remove (py_str (dict_get w Kod)) offer_ids of
               Inl e \<Rightarrow> (Inl e, offer_ids)
             | Inr offer_ids' \<Rightarrow>
                 stocks_loop to_int rest
                   (stocks @ [\<lparr>offer_id = py_str (dict_get w Kod), stock = n\<rparr>], offer_ids')))
      else stocks_loop to_int rest (stocks, offer_ids))"

definition missing_loop :: "pystr list \<Rightarrow> ozon_stock list \<Rightarrow> ozon_stock list" where
  "missing_loop offer_ids stocks =
     fold (\<lambda>i acc. acc @ [\<lparr>offer_id = i, stock = 0\<rparr>]) offer_ids stocks"

definition seller_create_stocks ::
  "(pyval \<Rightarrow> error + int) \<Rightarrow> watch list \<Rightarrow> pystr list
   \<Rightarrow> (error + ozon_stock list) \<times> pystr list" where
  "seller_create_stocks to_int watch_remnants offer_ids =
     (case stocks_loop to_int watch_remnants ([], offer_ids) of
        (Inl e, offer_ids') \<Rightarrow> (Inl e, offer_ids')
      | (Inr stocks, offer_ids') \<Rightarrow> (Inr (missing_loop offer_ids' stocks), offer_ids'))"

subsection \<open>Yandex.Market (market.py)\<close>

text \<open>
  \<open>datetime.datetime.utcnow().replace(microsecond=0).isoformat() + "Z"\<close>: the reading of
  the clock is an input of the model; \<open>isoformat\<close> writes the fields zero-padded and adds
  the microseconds only when they are not zero.
\<close>

record datetime =
  year :: nat
  month :: nat
  day :: nat
  hour :: nat
  minute :: nat
  second :: nat
  microsecond :: nat

definition zero_pad :: "nat \<Rightarrow> nat \<Rightarrow> pystr" where
  "zero_pad width n = replicate (width - length (nat_digits n)) 48 @ nat_digits n"

definition isoformat :: "datetime \<Rightarrow> pystr" where
  "isoformat d =
     zero_pad 4 (year d) @ ustr ''-'' @ zero_pad 2 (month d) @ ustr ''-'' @ zero_pad 2 (day d)
     @ ustr ''T'' @ zero_pad 2 (hour d) @ ustr '':'' @ zero_pad 2 (minute d)
     @ ustr '':'' @ zero_pad 2 (second d)
     @ (if microsecond d = 0 then [] else ustr ''.'' @ zero_pad 6 (microsecond d))"

text \<open>
  The dictionaries \<open>{"count": ..., "type": "FIT", "updatedAt": ...}\<close> and
  \<open>{"sku": ..., "warehouseId": ..., "items": [...]}\<close>; the key \<open>type\<close> is the field
  \<open>item_type\<close>.
\<close>

record market_item =
  count :: int
  item_type :: pystr
  updatedAt :: pystr

record market_stock =
  sku :: pystr
  warehouseId :: pystr
  items :: "market_item list"

definition market_record :: "pystr \<Rightarrow> pystr \<Rightarrow> int \<Rightarrow> pystr \<Rightarrow> market_stock" where
  "market_record i warehouse_id n date =
     \<lparr>sku = i, warehouseId = warehouse_id,
      items = [\<lparr>count = n, item_type = ustr ''FIT'', updatedAt = date\<rparr>]\<rparr>"

fun market_stocks_loop ::
  "(pyval \<Rightarrow> error + int) \<Rightarrow> pystr \<Rightarrow> pystr \<Rightarrow> watch list \<Rightarrow> market_stock list \<times> pystr list
   \<Rightarrow> (error + market_stock list) \<times> pystr list" where
  "market_stocks_loop to_int warehouse_id date [] (stocks, offer_ids) = (Inr stocks, offer_ids)"
| "market_stocks_loop to_int warehouse_id date (w # rest) (stocks, offer_ids) =
     (if py_str (dict_get w Kod) \<in> set offer_ids then
        (case resolve_stock to_int w of
           Inl e \<Rightarrow> (Inl e, offer_ids)
         | Inr n \<Rightarrow>
            (case list_remove (py_str (dict_get w Kod)) offer_ids of
               Inl e \<Rightarrow> (Inl e, offer_ids)
             | Inr offer_ids' \<Rightarrow>
                 market_stocks_loop to_int warehouse_id date rest
                   (stocks @ [market_record (py_str (dict_get w Kod)) warehouse_id n date],
                    offer_ids')))
      else market_stocks_loop to_int warehouse_id date rest (stocks, offer_ids))"

definition market_missing_loop ::
  "pystr \<Rightarrow> pystr \<Rightarrow> pystr list \<Rightarrow> market_stock list \<Rightarrow> market_stock list" where
  "market_missing_loop warehouse_id date offer_ids stocks =
     fold (\<lambda>i acc. acc @ [market_record i warehouse_id 0 date]) offer_ids stocks"

definition market_create_stocks ::
  "(pyval \<Rightarrow> error + int) \<Rightarrow> datetime \<Rightarrow> watch list \<Rightarrow> pystr list \<Rightarrow> pystr
   \<Rightarrow> (error + market_stock list) \<times> pystr list" where
  "market_create_stocks to_int utcnow watch_remnants offer_ids warehouse_id =
     (let date = isoformat (utcnow\<lparr>microsecond := 0\<rparr>) @ ustr ''Z''
      in case market_stocks_loop to_int warehouse_id date watch_remnants ([], offer_ids) of
           (Inl e, offer_ids') \<Rightarrow> (Inl e, offer_ids')
         | (Inr stocks, offer_ids') \<Rightarrow>
             (Inr (market_missing_loop warehouse_id date offer_ids' stocks), offer_ids'))"

section \<open>The price reconciler: \<open>create_prices\<close>\<close>

subsection \<open>Ozon (seller.py)\<close>

text \<open>
  The dictionary of one price; its key \<open>offer_id\<close> is the field \<open>price_offer_id\<close>.
  \<^verbatim>\<open>
  prices = []
  for watch in watch_remnants:
      if str(watch.get(Kod)) in offer_ids:
          price = {
              "auto_action_enabled": "UNKNOWN",
              "currency_code": "RUB",
              "offer_id": str(watch.get(Kod)),
              "old_price": "0",
              "price": price_conversion(watch.get(Tsena)),
          }
          prices.append(price)
  return prices
  \<close>
  As for the stocks, the model returns \<open>offer_ids\<close> as the call leaves it.
\<close>

record ozon_price =
  auto_action_enabled :: pystr
  currency_code :: pystr
  price_offer_id :: pystr
  old_price :: pystr
  price :: pystr

definition ozon_price_record :: "pystr \<Rightarrow> pystr \<Rightarrow> ozon_price" where
  "ozon_price_record i p =
     \<lparr>auto_action_enabled = ustr ''UNKNOWN'', currency_code = ustr ''RUB'',
      price_offer_id = i, old_price = ustr ''0'', price = p\<rparr>"

fun prices_loop ::
  "watch list \<Rightarrow> ozon_price list \<times> pystr list \<Rightarrow> (error + ozon_price list) \<times> pystr list" where
  "prices_loop [] (prices, offer_ids) = (Inr prices, offer_ids)"
| "prices_loop (w # rest) (prices, offer_ids) =
     (if py_str (dict_get w Kod) \<in> set offer_ids then
        (case price_conversion (dict_get w Tsena) of
           Inl e \<Rightarrow> (Inl e, offer_ids)
         | Inr p \<Rightarrow>
             prices_loop rest
               (prices @ [ozon_price_record (py_str (dict_get w Kod)) p], offer_ids))
      else prices_loop rest (prices, offer_ids))"

definition seller_create_prices ::
  "watch list \<Rightarrow> pystr list \<Rightarrow> (error + ozon_price list) \<times> pystr list" where
  "seller_create_prices watch_remnants offer_ids = prices_loop watch_remnants ([], offer_ids)"

subsection \<open>Yandex.Market (market.py)\<close>

text \<open>
  \<^verbatim>\<open>
  price = {
      "id": str(watch.get(Kod)),
      "price": {
          "value": int(price_conversion(watch.get(Tsena))),
          "currencyId": "RUR",
      },
  }
  \<close>
  The keys \<open>value\<close>, \<open>currencyId\<close>, \<open>id\<close> and \<open>price\<close> are the fields \<open>money_value\<close>,
  \<open>money_currencyId\<close>, \<open>price_id\<close> and \<open>price_money\<close>.
\<close>

record market_money =
  money_value :: int
  money_currencyId :: pystr

record market_price =
  price_id :: pystr
  price_money :: market_money

definition market_price_record :: "pystr \<Rightarrow> int \<Rightarrow> market_price" where
  "market_price_record i v =
     \<lparr>price_id = i, price_money = \<lparr>money_value = v, money_currencyId = ustr ''RUR''\<rparr>\<rparr>"

fun market_prices_loop ::
  "(pyval \<Rightarrow> error + int) \<Rightarrow> watch list \<Rightarrow> market_price list \<times> pystr list
   \<Rightarrow> (error + market_price list) \<times> pystr list" where
  "market_prices_loop to_int [] (prices, offer_ids) = (Inr prices, offer_ids)"
| "market_prices_loop to_int (w # rest) (prices, offer_ids) =
     (if py_str (dict_get w Kod) \<in> set offer_ids then
        (case price_conversion (dict_get w Tsena) of
           Inl e \<Rightarrow> (Inl e, offer_ids)
         | Inr p \<Rightarrow>
            (case to_int (PStr p) of
               Inl e \<Rightarrow> (Inl e, offer_ids)
             | Inr v \<Rightarrow>
                 market_prices_loop to_int rest
                   (prices @ [market_price_record (py_str (dict_get w Kod)) v], offer_ids)))
      else market_prices_loop to_int rest (prices, offer_ids))"

definition market_create_prices ::
  "(pyval \<Rightarrow> error + int) \<Rightarrow> watch list \<Rightarrow> pystr list
   \<Rightarrow> (error + market_price list) \<times> pystr list" where
  "market_create_prices to_int watch_remnants offer_ids =
     market_prices_loop to_int watch_remnants ([], offer_ids)"

section \<open>Notions used to state the properties\<close>

text \<open>The identifier of a supplier row, as both reconcilers compute it.\<close>

abbreviation code_of :: "watch \<Rightarrow> pystr" where
  "code_of w \<equiv> py_str (dict_get w Kod)"

text \<open>
  The elements of a list in the order of their first occurrence, every later
  occurrence dropped.
\<close>

fun first_occurrences :: "'a list \<Rightarrow> 'a list" where
  "first_occurrences [] = []"
| "first_occurrences (x # xs) = x # first_occurrences (filter (\<lambda>y. y \<noteq> x) xs)"

text \<open>
  The Yandex.Market record that carries the identifier and the quantity of an Ozon record.
\<close>

definition to_market :: "pystr \<Rightarrow> pystr \<Rightarrow> ozon_stock \<Rightarrow> market_stock" where
  "to_market warehouse_id date r = market_record (offer_id r) warehouse_id (stock r) date"

text \<open>
  The price record that belongs to a supplier row: the row's identifier with its
  normalized price (Ozon), or with the integer read from the normalized price
  (Yandex.Market).
\<close>

definition ozon_price_of :: "ozon_price \<Rightarrow> watch \<Rightarrow> bool" where
  "ozon_price_of r w \<longleftrightarrow>
     (\<exists>p. price_conversion (dict_get w Tsena) = Inr p
          \<and> r = ozon_price_record (code_of w) p)"

definition market_price_of :: "(pyval \<Rightarrow> error + int) \<Rightarrow> market_price \<Rightarrow> watch \<Rightarrow> bool" where
  "market_price_of to_int r w \<longleftrightarrow>
     (\<exists>p v. price_conversion (dict_get w Tsena) = Inr p \<and> to_int (PStr p) = Inr v
            \<and> r = market_price_record (code_of w) v)"

text \<open>
  The matched rows of a feed, in feed order: a row is matched when fewer rows before it
  carry its identifier than the identifier list has occurrences of it. For a
  duplicate-free list these are the rows whose identifier is in the list and in no
  earlier row.
\<close>

fun matched_after :: "watch list \<Rightarrow> pystr list \<Rightarrow> watch list \<Rightarrow> watch list" where
  "matched_after earlier ids [] = []"
| "matched_after earlier ids (w # ws) =
     (if count_list (map code_of earlier) (code_of w) < count_list ids (code_of w)
      then w # matched_after (earlier @ [w]) ids ws
      else matched_after (earlier @ [w]) ids ws)"

definition matched_rows :: "pystr list \<Rightarrow> watch list \<Rightarrow> watch list" where
  "matched_rows ids rows = matched_after [] ids rows"

text \<open>
  The stock record that belongs to a supplier row: the row's identifier with the
  quantity resolved from the row.
\<close>

definition ozon_stock_of :: "(pyval \<Rightarrow> error + int) \<Rightarrow> ozon_stock \<Rightarrow> watch \<Rightarrow> bool" where
  "ozon_stock_of to_int r w \<longleftrightarrow>
     offer_id r = code_of w \<and> resolve_stock to_int w = Inr (stock r)"

definition market_stock_of ::
  "(pyval \<Rightarrow> error + int) \<Rightarrow> pystr \<Rightarrow> market_stock \<Rightarrow> watch \<Rightarrow> bool" where
  "market_stock_of to_int warehouse_id r w \<longleftrightarrow>
     sku r = code_of w \<and> warehouseId r = warehouse_id
     \<and> map Inr (map count (items r)) = [resolve_stock to_int w]"

text \<open>
  A supplier row as the spec describes it: text in the three columns. The examples
  below are built from such rows.
\<close>


definition feed_row :: "string \<Rightarrow> string \<Rightarrow> string \<Rightarrow> watch" where
  "feed_row code quantity price_text =
     [Kod \<mapsto> PStr (ustr code), Kolichestvo \<mapsto> PStr (ustr quantity),
      Tsena \<mapsto> PStr (ustr price_text)]"

section \<open>Evaluating the model on concrete feeds\<close>

lemmas feed_eval =
  feed_row_def dict_get_def Kod_def Kolichestvo_def Tsena_def ustr_def resolve_stock_def
  list_remove_def int_of_text_def strip_blanks_def is_blank_def unsigned_value_def is_0_9_def
  getitem_def re_sub_not_0_9_def

lemmas stocks_eval =
  seller_create_stocks_def missing_loop_def market_create_stocks_def market_missing_loop_def
  market_record_def isoformat_def zero_pad_def nat_digits.simps Let_def

lemmas prices_eval =
  seller_create_prices_def market_create_prices_def ozon_price_record_def market_price_record_def

section \<open>Properties of the chunker\<close>

lemma py_slice_chunk:
  assumes "0 \<le> i" and "0 < n"
  shows "py_slice s i (i + n) = take (nat n) (drop (nat i) s)"
proof -
  let ?len = "int (length s)"
  consider (inside) "i + n \<le> ?len" | (tail) "i \<le> ?len" "?len < i + n" | (beyond) "?len < i"
    by linarith
  then show ?thesis
  proof cases
    case inside
    with assms show ?thesis
      by (simp add: py_slice_def slice_bound_def Let_def min_def)
  next
    case tail
    with assms have "length (drop (nat i) s) \<le> nat n"
      by simp
    moreover from tail assms have "length (drop (nat i) s) \<le> nat (?len - i)"
      by simp
    ultimately show ?thesis
      using tail assms by (simp add: py_slice_def slice_bound_def Let_def min_def)
  next
    case beyond
    with assms show ?thesis
      by (simp add: py_slice_def slice_bound_def Let_def min_def)
  qed
qed

lemma concat_chunks_from:
  "0 < n \<Longrightarrow> 0 \<le> i \<Longrightarrow>
   concat (map (\<lambda>k. py_slice s k (k + n)) (range_up i (int (length s)) n)) = drop (nat i) s"
proof (induction i "int (length s)" n rule: range_up.induct)
  case (1 i step)
  show ?case
  proof (cases "i < int (length s)")
    case True
    have "drop (nat (i + step)) s = drop (nat step) (drop (nat i) s)"
      using 1(2,3) by (simp add: nat_add_distrib add.commute)
    then have "take (nat step) (drop (nat i) s) @ drop (nat (i + step)) s = drop (nat i) s"
      by (simp only: append_take_drop_id)
    moreover from True 1
    have "concat (map (\<lambda>k. py_slice s k (k + step))
            (range_up (i + step) (int (length s)) step)) = drop (nat (i + step)) s"
      by simp
    ultimately show ?thesis
      using True 1(2,3)
      by (simp add: py_slice_chunk range_up.simps [of i "int (length s)" step])
  next
    case False
    with 1(3) show ?thesis
      by (simp add: range_up.simps [of i "int (length s)" step])
  qed
qed

lemma chunk_lengths_from:
  "0 < n \<Longrightarrow> 0 \<le> i \<Longrightarrow>
   c \<in> set (butlast (map (\<lambda>k. py_slice s k (k + n)) (range_up i (int (length s)) n)))
   \<Longrightarrow> length c = nat n"
proof (induction i "int (length s)" n rule: range_up.induct)
  case (1 i step)
  show ?case
  proof (cases "i < int (length s)")
    case True
    note lt = True
    show ?thesis
    proof (cases "i + step < int (length s)")
      case True
      with lt 1(2,3) have "range_up (i + step) (int (length s)) step \<noteq> []"
        by (simp add: range_up.simps [of "i + step" "int (length s)" step])
      moreover from True 1(2,3) have "min (length s - nat i) (nat step) = nat step"
        by linarith
      ultimately show ?thesis
        using lt 1
        by (auto simp: py_slice_chunk range_up.simps [of i "int (length s)" step])
    next
      case False
      with lt 1(2,3,4) show ?thesis
        by (simp add: range_up.simps [of i "int (length s)" step]
            range_up.simps [of "i + step" "int (length s)" step])
    qed
  next
    case False
    with 1(4) show ?thesis
      by (simp add: range_up.simps [of i "int (length s)" step])
  qed
qed

text \<open>
  C4. For a chunk size \<open>n > 0\<close>, \<open>divide\<close> returns chunks whose concatenation is
  the input list, every chunk but the last has exactly \<open>n\<close> elements, and the empty
  list gives no chunk at all.
\<close>

theorem divide_list_concat_lengths:
  assumes "0 < n"
  shows "\<exists>cs. divide_list s n = Inr cs \<and> concat cs = s
           \<and> (\<forall>c \<in> set (butlast cs). length c = nat n)
           \<and> (s = [] \<longrightarrow> cs = [])"
proof -
  let ?cs = "map (\<lambda>k. py_slice s k (k + n)) (range_up 0 (int (length s)) n)"
  from assms have "divide_list s n = Inr ?cs"
    by (simp add: divide_list_def py_range_def)
  moreover from assms have "concat ?cs = s"
    using concat_chunks_from [of n 0 s] by simp
  moreover from assms have "\<forall>c \<in> set (butlast ?cs). length c = nat n"
    using chunk_lengths_from [of n 0 _ s] by blast
  moreover have "s = [] \<longrightarrow> ?cs = []"
    by (simp add: range_up.simps [of 0 0 n])
  ultimately show ?thesis by blast
qed

theorem divide_list_concat_lengths_witness:
  "divide_list [1, 2, 3, 4, 5 :: int] 2 = Inr [[1, 2], [3, 4], [5]]
   \<and> divide_list ([] :: int list) 2 = Inr []
   \<and> (\<exists>cs. divide_list [1, 2, 3, 4, 5 :: int] 2 = Inr cs \<and> concat cs = [1, 2, 3, 4, 5])"
proof -
  have a: "divide_list [1, 2, 3, 4, 5 :: int] 2 = Inr [[1, 2], [3, 4], [5]]"
    by (simp add: divide_list_def py_range_def py_slice_def slice_bound_def range_up.simps)
  have b: "divide_list ([] :: int list) 2 = Inr []"
    by (simp add: divide_list_def py_range_def range_up.simps)
  have "(0::int) < 2" by simp
  from divide_list_concat_lengths [OF this, of "[1, 2, 3, 4, 5 :: int]"]
  have "\<exists>cs. divide_list [1, 2, 3, 4, 5 :: int] 2 = Inr cs \<and> concat cs = [1, 2, 3, 4, 5]"
    by blast
  with a b show ?thesis by blast
qed


text \<open>
  C5, at inputs of the code: a zero chunk size raises \<open>ValueError\<close> (it is \<open>range\<close> that
  raises), but a negative chunk size returns no chunk and no error.
\<close>

theorem divide_list_nonpositive:
  "divide_list [1, 2, 3 :: int] 0 = Inl ValueError
   \<and> divide_list [1, 2, 3 :: int] (- 1) = Inr []"
  by (simp add: divide_list_def py_range_def range_down.simps)

section \<open>Properties of the price normalizer\<close>

lemma py_split_first:
  "\<exists>parts. py_split sep s = takeWhile (\<lambda>c. c \<noteq> sep) s # parts"
  by (induction s) auto

lemma price_conversion_text:
  "price_conversion (PStr s) =
     Inr (filter (\<lambda>c. 48 \<le> c \<and> c \<le> 57) (takeWhile (\<lambda>c. c \<noteq> 46) s))"
proof -
  obtain parts where "py_split 46 s = takeWhile (\<lambda>c. c \<noteq> 46) s # parts"
    using py_split_first by blast
  then show ?thesis
    by (simp add: getitem_def re_sub_not_0_9_def is_0_9_def [abs_def])
qed

text \<open>
  C6. On every string, \<open>price_conversion\<close> returns (and so raises nothing) the ASCII
  digits of the part before the first full stop (code point 46). The three examples:
  \<open>5'990.00\<close> and \<open>1'234.56\<close>, each followed by a blank and the Russian abbreviation
  of the rouble with its full stop (code points 1088, 1091, 1073, 46), and the empty string.
\<close>

theorem price_conversion_digits_before_point:
  "(\<forall>s. price_conversion (PStr s) =
          Inr (filter (\<lambda>c. 48 \<le> c \<and> c \<le> 57) (takeWhile (\<lambda>c. c \<noteq> 46) s)))
   \<and> price_conversion (PStr (ustr ''5'' @ [39] @ ustr ''990.00 '' @ [1088, 1091, 1073, 46]))
       = Inr (ustr ''5990'')
   \<and> price_conversion (PStr []) = Inr []
   \<and> price_conversion (PStr (ustr ''1'' @ [39] @ ustr ''234.56 '' @ [1088, 1091, 1073, 46]))
       = Inr (ustr ''1234'')"
proof -
  have "price_conversion (PStr (ustr ''5'' @ [39] @ ustr ''990.00 '' @ [1088, 1091, 1073, 46]))
          = Inr (ustr ''5990'')"
    by (simp add: ustr_def getitem_def re_sub_not_0_9_def is_0_9_def)
  moreover have "price_conversion (PStr []) = Inr []"
    by (simp add: getitem_def re_sub_not_0_9_def)
  moreover
  have "price_conversion (PStr (ustr ''1'' @ [39] @ ustr ''234.56 '' @ [1088, 1091, 1073, 46]))
          = Inr (ustr ''1234'')"
    by (simp add: ustr_def getitem_def re_sub_not_0_9_def is_0_9_def)
  ultimately show ?thesis
    using price_conversion_text by blast
qed

theorem price_conversion_digits_before_point_witness:
  "price_conversion (PStr (ustr ''12.50 rub.''))
     = Inr (filter (\<lambda>c. 48 \<le> c \<and> c \<le> 57) (takeWhile (\<lambda>c. c \<noteq> 46) (ustr ''12.50 rub.'')))
   \<and> filter (\<lambda>c. 48 \<le> c \<and> c \<le> 57) (takeWhile (\<lambda>c. c \<noteq> 46) (ustr ''12.50 rub.''))
     = ustr ''12''"
proof -
  have "filter (\<lambda>c. 48 \<le> c \<and> c \<le> 57) (takeWhile (\<lambda>c. c \<noteq> 46) (ustr ''12.50 rub.''))
          = ustr ''12''"
    by (simp add: ustr_def)
  with price_conversion_digits_before_point
    [THEN conjunct1, THEN spec, of "ustr ''12.50 rub.''"]
  show ?thesis by (intro conjI)
qed

section \<open>Properties of the stock reconciler\<close>


lemma set_first_occurrences: "set (first_occurrences xs) = set xs"
  by (induction xs rule: first_occurrences.induct) auto

lemma distinct_first_occurrences: "distinct (first_occurrences xs)"
  by (induction xs rule: first_occurrences.induct) (auto simp: set_first_occurrences)

lemma missing_loop_append:
  "missing_loop ids acc = acc @ map (\<lambda>i. \<lparr>offer_id = i, stock = 0\<rparr>) ids"
  unfolding missing_loop_def by (induction ids arbitrary: acc) auto

lemma stocks_loop_append:
  "stocks_loop to_int (pre @ post) st =
     (case stocks_loop to_int pre st of
        (Inl e, ids) \<Rightarrow> (Inl e, ids)
      | (Inr acc, ids) \<Rightarrow> stocks_loop to_int post (acc, ids))"
proof (induction pre arbitrary: st)
  case Nil
  show ?case by (cases st) simp
next
  case (Cons w pre)
  show ?case
    by (cases st) (simp add: Cons.IH list_remove_def split: sum.splits)
qed

lemma stocks_loop_idents:
  assumes "stocks_loop to_int rows (acc, ids) = (Inr out, ids')" and "distinct ids"
  shows "map offer_id out =
           map offer_id acc @ first_occurrences (filter (\<lambda>i. i \<in> set ids) (map code_of rows))
         \<and> ids' = filter (\<lambda>i. i \<notin> set (map code_of rows)) ids"
  using assms
proof (induction rows arbitrary: acc ids)
  case Nil
  then show ?case by simp
next
  case (Cons w rows)
  show ?case
  proof (cases "code_of w \<in> set ids")
    case False
    with Cons.prems have "stocks_loop to_int rows (acc, ids) = (Inr out, ids')"
      by simp
    from Cons.IH [OF this Cons.prems(2)] False show ?thesis
      by (auto intro: filter_cong)
  next
    case True
    with Cons.prems(1) obtain n where
      n: "resolve_stock to_int w = Inr n" and
      rest: "stocks_loop to_int rows
               (acc @ [\<lparr>offer_id = code_of w, stock = n\<rparr>], remove1 (code_of w) ids)
             = (Inr out, ids')"
      by (auto simp: list_remove_def split: sum.splits)
    have d: "distinct (remove1 (code_of w) ids)"
      using Cons.prems(2) by simp
    have s: "set (remove1 (code_of w) ids) = set ids - {code_of w}"
      using Cons.prems(2) by simp
    have r: "remove1 (code_of w) ids = filter (\<lambda>i. i \<noteq> code_of w) ids"
      using Cons.prems(2) by (simp add: distinct_remove1_removeAll removeAll_filter_not_eq) (metis)
    have f: "filter (\<lambda>i. i \<in> set ids - {code_of w}) (map code_of rows)
             = filter (\<lambda>y. y \<noteq> code_of w) (filter (\<lambda>i. i \<in> set ids) (map code_of rows))"
      by (auto intro: filter_cong)
    from Cons.IH [OF rest d] True show ?thesis
      by (auto simp: s f r intro: filter_cong)
  qed
qed


lemma stocks_loop_matched:
  assumes "stocks_loop to_int rows (acc, ids) = (Inr out, ids')"
  shows "\<exists>m. out = acc @ m \<and> ids' = fold remove1 (map offer_id m) ids
             \<and> (\<forall>r \<in> set m. \<exists>w \<in> set rows.
                    code_of w = offer_id r \<and> resolve_stock to_int w = Inr (stock r))"
  using assms
proof (induction rows arbitrary: acc ids)
  case Nil
  then show ?case by simp
next
  case (Cons w rows)
  show ?case
  proof (cases "code_of w \<in> set ids")
    case False
    with Cons.prems have "stocks_loop to_int rows (acc, ids) = (Inr out, ids')"
      by simp
    from Cons.IH [OF this] show ?thesis
      by auto
  next
    case True
    with Cons.prems(1) obtain n where
      n: "resolve_stock to_int w = Inr n" and
      rest: "stocks_loop to_int rows
               (acc @ [\<lparr>offer_id = code_of w, stock = n\<rparr>], remove1 (code_of w) ids)
             = (Inr out, ids')"
      by (auto simp: list_remove_def split: sum.splits)
    from Cons.IH [OF rest] obtain m where
      m: "out = (acc @ [\<lparr>offer_id = code_of w, stock = n\<rparr>]) @ m"
         "ids' = fold remove1 (map offer_id m) (remove1 (code_of w) ids)"
         "\<forall>r \<in> set m. \<exists>w \<in> set rows.
             code_of w = offer_id r \<and> resolve_stock to_int w = Inr (stock r)"
      by blast
    let ?m = "\<lparr>offer_id = code_of w, stock = n\<rparr> # m"
    have "out = acc @ ?m" using m(1) by simp
    moreover have "ids' = fold remove1 (map offer_id ?m) ids" using m(2) by simp
    moreover have "\<forall>r \<in> set ?m. \<exists>v \<in> set (w # rows).
             code_of v = offer_id r \<and> resolve_stock to_int v = Inr (stock r)"
      using m(3) n by auto
    ultimately show ?thesis by blast
  qed
qed

lemma stocks_loop_first_row:
  assumes "stocks_loop to_int rows (acc, ids) = (Inr out, ids')" and "distinct ids"
  shows "\<exists>m. out = acc @ m
             \<and> (\<forall>r \<in> set m. offer_id r \<in> set ids
                    \<and> (\<exists>w. find (\<lambda>w. code_of w = offer_id r) rows = Some w
                            \<and> resolve_stock to_int w = Inr (stock r)))"
  using assms
proof (induction rows arbitrary: acc ids)
  case Nil
  then show ?case by simp
next
  case (Cons w rows)
  show ?case
  proof (cases "code_of w \<in> set ids")
    case False
    with Cons.prems have "stocks_loop to_int rows (acc, ids) = (Inr out, ids')"
      by simp
    from Cons.IH [OF this Cons.prems(2)] False show ?thesis
      by fastforce
  next
    case True
    with Cons.prems(1) obtain n where
      n: "resolve_stock to_int w = Inr n" and
      rest: "stocks_loop to_int rows
               (acc @ [\<lparr>offer_id = code_of w, stock = n\<rparr>], remove1 (code_of w) ids)
             = (Inr out, ids')"
      by (auto simp: list_remove_def split: sum.splits)
    have d: "distinct (remove1 (code_of w) ids)"
      using Cons.prems(2) by simp
    have s: "set (remove1 (code_of w) ids) = set ids - {code_of w}"
      using Cons.prems(2) by simp
    from Cons.IH [OF rest d] obtain m where
      m: "out = (acc @ [\<lparr>offer_id = code_of w, stock = n\<rparr>]) @ m"
         "\<forall>r \<in> set m. offer_id r \<in> set (remove1 (code_of w) ids)
             \<and> (\<exists>w. find (\<lambda>w. code_of w = offer_id r) rows = Some w
                     \<and> resolve_stock to_int w = Inr (stock r))"
      by blast
    let ?m = "\<lparr>offer_id = code_of w, stock = n\<rparr> # m"
    have "out = acc @ ?m" using m(1) by simp
    moreover have "\<forall>r \<in> set ?m. offer_id r \<in> set ids
             \<and> (\<exists>v. find (\<lambda>v. code_of v = offer_id r) (w # rows) = Some v
                     \<and> resolve_stock to_int v = Inr (stock r))"
      using m(2) n True s by auto
    ultimately show ?thesis by blast
  qed
qed

lemma market_stocks_loop_refines:
  "market_stocks_loop to_int wh date rows (map (to_market wh date) acc, ids) =
     (case stocks_loop to_int rows (acc, ids) of
        (Inl e, ids') \<Rightarrow> (Inl e, ids')
      | (Inr out, ids') \<Rightarrow> (Inr (map (to_market wh date) out), ids'))"
proof (induction rows arbitrary: acc ids)
  case Nil
  show ?case by simp
next
  case (Cons w rows)
  have step: "map (to_market wh date) acc @ [market_record (code_of w) wh n date]
        = map (to_market wh date) (acc @ [\<lparr>offer_id = code_of w, stock = n\<rparr>])" for n
    by (simp add: to_market_def)
  show ?case
    by (simp add: step Cons.IH list_remove_def del: map_append split: sum.splits)
qed

lemma market_missing_loop_refines:
  "market_missing_loop wh date ids (map (to_market wh date) acc)
     = map (to_market wh date) (missing_loop ids acc)"
  unfolding market_missing_loop_def missing_loop_def
proof (induction ids arbitrary: acc)
  case Nil
  show ?case by simp
next
  case (Cons i ids)
  have "map (to_market wh date) acc @ [market_record i wh 0 date]
        = map (to_market wh date) (acc @ [\<lparr>offer_id = i, stock = 0\<rparr>])"
    by (simp add: to_market_def)
  then show ?case
    using Cons.IH [of "acc @ [\<lparr>offer_id = i, stock = 0\<rparr>]"] by simp
qed

lemma market_create_stocks_refines:
  "market_create_stocks to_int utcnow rows ids wh =
     (case seller_create_stocks to_int rows ids of
        (Inl e, ids') \<Rightarrow> (Inl e, ids')
      | (Inr out, ids') \<Rightarrow>
          (Inr (map (to_market wh (isoformat (utcnow\<lparr>microsecond := 0\<rparr>) @ ustr ''Z'')) out), ids'))"
proof -
  let ?date = "isoformat (utcnow\<lparr>microsecond := 0\<rparr>) @ ustr ''Z''"
  have "market_stocks_loop to_int wh ?date rows ([], ids) =
     (case stocks_loop to_int rows ([], ids) of
        (Inl e, ids') \<Rightarrow> (Inl e, ids')
      | (Inr out, ids') \<Rightarrow> (Inr (map (to_market wh ?date) out), ids'))"
    using market_stocks_loop_refines [of to_int wh ?date rows "[]" ids] by simp
  then show ?thesis
    by (simp add: market_create_stocks_def seller_create_stocks_def Let_def
        market_missing_loop_refines split: prod.splits sum.splits)
qed


lemma seller_create_stocks_Inr:
  assumes "seller_create_stocks to_int rows ids = (Inr out, ids')"
  obtains m where "stocks_loop to_int rows ([], ids) = (Inr m, ids')"
    and "out = m @ map (\<lambda>i. \<lparr>offer_id = i, stock = 0\<rparr>) ids'"
  using assms
  by (auto simp: seller_create_stocks_def missing_loop_append split: prod.splits sum.splits)

lemma seller_create_stocks_distinct:
  assumes "distinct ids" and "seller_create_stocks to_int rows ids = (Inr out, ids')"
  shows "map offer_id out =
           first_occurrences (filter (\<lambda>i. i \<in> set ids) (map code_of rows))
           @ filter (\<lambda>i. i \<notin> set (map code_of rows)) ids"
    and "distinct (map offer_id out)"
    and "set (map offer_id out) = set ids"
    and "\<forall>r \<in> set out.
           case find (\<lambda>w. code_of w = offer_id r) rows of
             None \<Rightarrow> stock r = 0
           | Some w \<Rightarrow> resolve_stock to_int w = Inr (stock r)"
proof -
  from assms(2) obtain m where
    loop: "stocks_loop to_int rows ([], ids) = (Inr m, ids')" and
    out: "out = m @ map (\<lambda>i. \<lparr>offer_id = i, stock = 0\<rparr>) ids'"
    by (rule seller_create_stocks_Inr)
  from stocks_loop_idents [OF loop assms(1)] have
    m: "map offer_id m = first_occurrences (filter (\<lambda>i. i \<in> set ids) (map code_of rows))" and
    ids': "ids' = filter (\<lambda>i. i \<notin> set (map code_of rows)) ids"
    by simp_all
  have defaults: "map offer_id (map (\<lambda>i. \<lparr>offer_id = i, stock = 0\<rparr>) ids') = ids'"
    by (simp add: comp_def)
  show ids: "map offer_id out =
           first_occurrences (filter (\<lambda>i. i \<in> set ids) (map code_of rows))
           @ filter (\<lambda>i. i \<notin> set (map code_of rows)) ids"
    unfolding out using m ids' defaults by simp
  show "distinct (map offer_id out)"
    unfolding ids using assms(1)
    by (auto simp: distinct_first_occurrences set_first_occurrences)
  show "set (map offer_id out) = set ids"
    unfolding ids by (auto simp: set_first_occurrences)
  from stocks_loop_first_row [OF loop assms(1)] have
    matched: "\<forall>r \<in> set m. \<exists>w. find (\<lambda>w. code_of w = offer_id r) rows = Some w
                \<and> resolve_stock to_int w = Inr (stock r)"
    by auto
  have missing: "find (\<lambda>w. code_of w = i) rows = None" if "i \<in> set ids'" for i
    using that unfolding ids' by (auto simp: find_None_iff)
  show "\<forall>r \<in> set out.
           case find (\<lambda>w. code_of w = offer_id r) rows of
             None \<Rightarrow> stock r = 0
           | Some w \<Rightarrow> resolve_stock to_int w = Inr (stock r)"
  proof
    fix r assume "r \<in> set out"
    then consider "r \<in> set m" | i where "i \<in> set ids'" "r = \<lparr>offer_id = i, stock = 0\<rparr>"
      unfolding out by auto
    then show "case find (\<lambda>w. code_of w = offer_id r) rows of
             None \<Rightarrow> stock r = 0
           | Some w \<Rightarrow> resolve_stock to_int w = Inr (stock r)"
    proof cases
      case 1
      with matched show ?thesis by fastforce
    next
      case 2
      with missing show ?thesis by simp
    qed
  qed
qed

lemma market_create_stocks_Inr:
  assumes "market_create_stocks to_int utcnow rows ids wh = (Inr out, ids')"
  obtains s where "seller_create_stocks to_int rows ids = (Inr s, ids')"
    and "out = map (to_market wh (isoformat (utcnow\<lparr>microsecond := 0\<rparr>) @ ustr ''Z'')) s"
  using assms unfolding market_create_stocks_refines
  by (auto split: prod.splits sum.splits)


lemma stocks_loop_lengths:
  "stocks_loop to_int rows (acc, ids) = (Inr out, ids')
   \<Longrightarrow> length out + length ids' = length acc + length ids"
proof (induction rows arbitrary: acc ids)
  case Nil
  then show ?case by simp
next
  case (Cons w rows)
  show ?case
  proof (cases "code_of w \<in> set ids")
    case False
    with Cons show ?thesis by simp
  next
    case True
    with Cons.prems obtain n where
      rest: "stocks_loop to_int rows
               (acc @ [\<lparr>offer_id = code_of w, stock = n\<rparr>], remove1 (code_of w) ids)
             = (Inr out, ids')"
      by (auto simp: list_remove_def split: sum.splits)
    from True have "length ids = Suc (length (remove1 (code_of w) ids))"
      by (simp add: length_remove1) (metis length_pos_if_in_set Suc_pred)
    with Cons.IH [OF rest] show ?thesis by simp
  qed
qed

lemma seller_create_stocks_fails:
  assumes "seller_create_stocks to_int pre ids = (Inr out, ids1)"
    and "code_of w \<in> set ids1" and "resolve_stock to_int w = Inl e"
  shows "seller_create_stocks to_int (pre @ w # post) ids = (Inl e, ids1)"
proof -
  from assms(1) obtain m where "stocks_loop to_int pre ([], ids) = (Inr m, ids1)"
    by (rule seller_create_stocks_Inr)
  with assms(2,3) have "stocks_loop to_int (pre @ w # post) ([], ids) = (Inl e, ids1)"
    by (simp add: stocks_loop_append)
  then show ?thesis
    by (simp add: seller_create_stocks_def)
qed

lemma market_create_stocks_fails:
  assumes "market_create_stocks to_int utcnow pre ids wh = (Inr out, ids1)"
    and "code_of w \<in> set ids1" and "resolve_stock to_int w = Inl e"
  shows "market_create_stocks to_int utcnow (pre @ w # post) ids wh = (Inl e, ids1)"
proof -
  from assms(1) obtain s where "seller_create_stocks to_int pre ids = (Inr s, ids1)"
    by (rule market_create_stocks_Inr)
  from seller_create_stocks_fails [OF this assms(2,3)] show ?thesis
    by (simp add: market_create_stocks_refines)
qed

lemma seller_create_stocks_matched:
  assumes "seller_create_stocks to_int rows ids = (Inr out, ids')"
  shows "\<exists>m. out = m @ map (\<lambda>i. \<lparr>offer_id = i, stock = 0\<rparr>) ids'
           \<and> ids' = fold remove1 (map offer_id m) ids
           \<and> length ids' + length m = length ids
           \<and> (\<forall>r \<in> set m. \<exists>w \<in> set rows.
                  code_of w = offer_id r \<and> resolve_stock to_int w = Inr (stock r))"
proof -
  from assms obtain m where
    loop: "stocks_loop to_int rows ([], ids) = (Inr m, ids')" and
    out: "out = m @ map (\<lambda>i. \<lparr>offer_id = i, stock = 0\<rparr>) ids'"
    by (rule seller_create_stocks_Inr)
  from stocks_loop_matched [OF loop] have
    "ids' = fold remove1 (map offer_id m) ids"
    "\<forall>r \<in> set m. \<exists>w \<in> set rows.
        code_of w = offer_id r \<and> resolve_stock to_int w = Inr (stock r)"
    by auto
  moreover from stocks_loop_lengths [OF loop] have "length ids' + length m = length ids"
    by simp
  ultimately show ?thesis using out by blast
qed

lemma resolve_stock_cases:
  assumes "resolve_stock to_int w = Inr n"
  shows "n = 100 \<or> n = 0 \<or> to_int (dict_get w Kolichestvo) = Inr n"
  using assms by (auto simp: resolve_stock_def Let_def split: if_splits)

lemma seller_stock_values:
  assumes "seller_create_stocks to_int rows ids = (Inr out, ids')" and "r \<in> set out"
  shows "stock r = 100 \<or> stock r = 0
         \<or> (\<exists>w \<in> set rows. code_of w = offer_id r
               \<and> to_int (dict_get w Kolichestvo) = Inr (stock r))"
proof -
  from seller_create_stocks_matched [OF assms(1)] obtain m where
    out: "out = m @ map (\<lambda>i. \<lparr>offer_id = i, stock = 0\<rparr>) ids'" and
    m: "\<forall>r \<in> set m. \<exists>w \<in> set rows.
           code_of w = offer_id r \<and> resolve_stock to_int w = Inr (stock r)"
    by blast
  from assms(2) out consider "r \<in> set m" | "stock r = 0"
    by auto
  then show ?thesis
  proof cases
    case 1
    with m obtain w where
      w: "w \<in> set rows" "code_of w = offer_id r" "resolve_stock to_int w = Inr (stock r)"
      by blast
    from resolve_stock_cases [OF w(3)] w(1,2) show ?thesis by blast
  next
    case 2
    then show ?thesis by simp
  qed
qed

lemma count_list_snoc: "count_list (xs @ [x]) c = count_list xs c + (if x = c then 1 else 0)"
  by (induction xs) auto

lemma in_set_count_list: "x \<in> set xs \<longleftrightarrow> 0 < count_list xs x"
  using count_list_0_iff [of xs x] by auto

lemma stocks_loop_matched_rows:
  assumes "stocks_loop to_int ws (acc, cur) = (Inr out, ids')"
    and "\<forall>c. count_list cur c = count_list ids c - count_list (map code_of earlier) c"
  shows "\<exists>m. out = acc @ m \<and> list_all2 (ozon_stock_of to_int) m (matched_after earlier ids ws)"
  using assms
proof (induction ws arbitrary: acc cur earlier)
  case Nil
  then show ?case by simp
next
  case (Cons w ws)
  let ?d = "code_of w"
  show ?case
  proof (cases "?d \<in> set cur")
    case False
    then have zero: "count_list cur ?d = 0"
      by (simp add: in_set_count_list)
    with Cons.prems(2) have no: "\<not> count_list (map code_of earlier) ?d < count_list ids ?d"
      by (metis zero_less_diff less_numeral_extra(3))
    have inv: "\<forall>c. count_list cur c
                 = count_list ids c - count_list (map code_of (earlier @ [w])) c"
      using Cons.prems(2) zero by (auto simp: count_list_snoc)
    from False Cons.prems(1) have "stocks_loop to_int ws (acc, cur) = (Inr out, ids')"
      by simp
    from Cons.IH [OF this inv] no show ?thesis
      by simp
  next
    case True
    then have pos: "0 < count_list cur ?d"
      by (simp add: in_set_count_list)
    with Cons.prems(2) have yes: "count_list (map code_of earlier) ?d < count_list ids ?d"
      by (metis zero_less_diff)
    from True Cons.prems(1) obtain n where
      n: "resolve_stock to_int w = Inr n" and
      rest: "stocks_loop to_int ws (acc @ [\<lparr>offer_id = ?d, stock = n\<rparr>], remove1 ?d cur)
               = (Inr out, ids')"
      by (auto simp: list_remove_def split: sum.splits)
    have inv: "\<forall>c. count_list (remove1 ?d cur) c
                 = count_list ids c - count_list (map code_of (earlier @ [w])) c"
      using Cons.prems(2) by (auto simp: count_list_snoc)
    from Cons.IH [OF rest inv] obtain m where
      m: "out = (acc @ [\<lparr>offer_id = ?d, stock = n\<rparr>]) @ m"
         "list_all2 (ozon_stock_of to_int) m (matched_after (earlier @ [w]) ids ws)"
      by blast
    have "ozon_stock_of to_int \<lparr>offer_id = ?d, stock = n\<rparr> w"
      using n by (simp add: ozon_stock_of_def)
    with m yes have "out = acc @ (\<lparr>offer_id = ?d, stock = n\<rparr> # m)
        \<and> list_all2 (ozon_stock_of to_int) (\<lparr>offer_id = ?d, stock = n\<rparr> # m)
             (matched_after earlier ids (w # ws))"
      by simp
    then show ?thesis by blast
  qed
qed

lemma stocks_loop_left:
  "stocks_loop to_int rows (acc, ids) = (Inr out, ids')
   \<Longrightarrow> ids' = fold remove1 (map code_of rows) ids"
proof (induction rows arbitrary: acc ids)
  case Nil
  then show ?case by simp
next
  case (Cons w rows)
  show ?case
  proof (cases "code_of w \<in> set ids")
    case False
    with Cons show ?thesis by (simp add: remove1_idem)
  next
    case True
    with Cons.prems obtain n where
      "stocks_loop to_int rows
         (acc @ [\<lparr>offer_id = code_of w, stock = n\<rparr>], remove1 (code_of w) ids) = (Inr out, ids')"
      by (auto simp: list_remove_def split: sum.splits)
    from Cons.IH [OF this] show ?thesis by simp
  qed
qed

lemma count_list_fold_remove1:
  "count_list (fold remove1 xs ids) c = count_list ids c - count_list xs c"
  by (induction xs arbitrary: ids) auto

lemma stocks_loop_returns:
  assumes "\<forall>w \<in> set (matched_after earlier ids ws). \<exists>n. resolve_stock to_int w = Inr n"
    and "\<forall>c. count_list cur c = count_list ids c - count_list (map code_of earlier) c"
  shows "\<exists>out ids'. stocks_loop to_int ws (acc, cur) = (Inr out, ids')"
  using assms
proof (induction ws arbitrary: acc cur earlier)
  case Nil
  show ?case by simp
next
  case (Cons w ws)
  let ?d = "code_of w"
  show ?case
  proof (cases "?d \<in> set cur")
    case False
    then have zero: "count_list cur ?d = 0"
      by (simp add: in_set_count_list)
    with Cons.prems(2) have no: "\<not> count_list (map code_of earlier) ?d < count_list ids ?d"
      by (metis zero_less_diff less_numeral_extra(3))
    have inv: "\<forall>c. count_list cur c
                 = count_list ids c - count_list (map code_of (earlier @ [w])) c"
      using Cons.prems(2) zero by (auto simp: count_list_snoc)
    from Cons.prems(1) no
    have "\<forall>v \<in> set (matched_after (earlier @ [w]) ids ws). \<exists>n. resolve_stock to_int v = Inr n"
      by simp
    from Cons.IH [OF this inv, of acc] False show ?thesis
      by simp
  next
    case True
    then have pos: "0 < count_list cur ?d"
      by (simp add: in_set_count_list)
    with Cons.prems(2) have yes: "count_list (map code_of earlier) ?d < count_list ids ?d"
      by (metis zero_less_diff)
    with Cons.prems(1) obtain n where n: "resolve_stock to_int w = Inr n"
      by auto
    have inv: "\<forall>c. count_list (remove1 ?d cur) c
                 = count_list ids c - count_list (map code_of (earlier @ [w])) c"
      using Cons.prems(2) by (auto simp: count_list_snoc)
    from Cons.prems(1) yes
    have "\<forall>v \<in> set (matched_after (earlier @ [w]) ids ws). \<exists>n. resolve_stock to_int v = Inr n"
      by simp
    from Cons.IH [OF this inv, of "acc @ [\<lparr>offer_id = ?d, stock = n\<rparr>]"] True n show ?thesis
      by (simp add: list_remove_def)
  qed
qed

lemma seller_create_stocks_matched_rows:
  assumes "seller_create_stocks to_int rows ids = (Inr out, ids')"
  shows "list_all2 (ozon_stock_of to_int) (take (length out - length ids') out)
           (matched_rows ids rows)"
    and "drop (length out - length ids') out = map (\<lambda>i. \<lparr>offer_id = i, stock = 0\<rparr>) ids'"
    and "ids' = fold remove1 (map code_of rows) ids"
proof -
  from assms obtain m where
    loop: "stocks_loop to_int rows ([], ids) = (Inr m, ids')" and
    out: "out = m @ map (\<lambda>i. \<lparr>offer_id = i, stock = 0\<rparr>) ids'"
    by (rule seller_create_stocks_Inr)
  have inv: "\<forall>c. count_list ids c = count_list ids c - count_list (map code_of []) c"
    by simp
  from stocks_loop_matched_rows [OF loop inv]
  have m: "list_all2 (ozon_stock_of to_int) m (matched_rows ids rows)"
    by (simp add: matched_rows_def)
  from out have t: "take (length out - length ids') out = m"
    and d: "drop (length out - length ids') out = map (\<lambda>i. \<lparr>offer_id = i, stock = 0\<rparr>) ids'"
    by simp_all
  from m t show "list_all2 (ozon_stock_of to_int) (take (length out - length ids') out)
           (matched_rows ids rows)"
    by simp
  from d show "drop (length out - length ids') out = map (\<lambda>i. \<lparr>offer_id = i, stock = 0\<rparr>) ids'" .
  from loop show "ids' = fold remove1 (map code_of rows) ids"
    by (rule stocks_loop_left)
qed

lemma seller_create_stocks_returns:
  assumes "\<forall>w \<in> set (matched_rows ids rows). \<exists>n. resolve_stock to_int w = Inr n"
  shows "\<exists>out ids'. seller_create_stocks to_int rows ids = (Inr out, ids')"
proof -
  have inv: "\<forall>c. count_list ids c = count_list ids c - count_list (map code_of []) c"
    by simp
  from assms have "\<forall>w \<in> set (matched_after [] ids rows). \<exists>n. resolve_stock to_int w = Inr n"
    by (simp add: matched_rows_def)
  from stocks_loop_returns [OF this inv, of "[]"] obtain m ids' where
    "stocks_loop to_int rows ([], ids) = (Inr m, ids')"
    by (elim exE)
  then have "seller_create_stocks to_int rows ids = (Inr (missing_loop ids' m), ids')"
    by (simp add: seller_create_stocks_def)
  then show ?thesis by (intro exI)
qed

lemma market_create_stocks_matched_rows:
  assumes "market_create_stocks to_int utcnow rows ids wh = (Inr out, ids')"
  shows "list_all2 (market_stock_of to_int wh) (take (length out - length ids') out)
           (matched_rows ids rows)"
    and "map sku (drop (length out - length ids') out) = ids'"
    and "ids' = fold remove1 (map code_of rows) ids"
proof -
  let ?up = "to_market wh (isoformat (utcnow\<lparr>microsecond := 0\<rparr>) @ ustr ''Z'')"
  from assms obtain s where
    s: "seller_create_stocks to_int rows ids = (Inr s, ids')" and
    out: "out = map ?up s"
    by (rule market_create_stocks_Inr)
  note p = seller_create_stocks_matched_rows [OF s]
  have up: "market_stock_of to_int wh (?up r) w" if "ozon_stock_of to_int r w" for r w
    using that by (simp add: market_stock_of_def ozon_stock_of_def to_market_def market_record_def)
  from out have t: "take (length out - length ids') out
                      = map ?up (take (length s - length ids') s)"
    by (simp add: take_map)
  from p(1) have "list_all2 (market_stock_of to_int wh)
                    (map ?up (take (length s - length ids') s)) (matched_rows ids rows)"
    by (simp add: list_all2_map1) (erule list_all2_mono, rule up)
  with t show "list_all2 (market_stock_of to_int wh) (take (length out - length ids') out)
           (matched_rows ids rows)"
    by simp
  from out have "drop (length out - length ids') out = map ?up (drop (length s - length ids') s)"
    by (simp add: drop_map)
  with p(2) show "map sku (drop (length out - length ids') out) = ids'"
    by (simp add: comp_def to_market_def market_record_def)
  from p(3) show "ids' = fold remove1 (map code_of rows) ids" .
qed

lemma market_create_stocks_returns:
  assumes "\<forall>w \<in> set (matched_rows ids rows). \<exists>n. resolve_stock to_int w = Inr n"
  shows "\<exists>out ids'. market_create_stocks to_int utcnow rows ids wh = (Inr out, ids')"
proof -
  from seller_create_stocks_returns [OF assms] obtain s ids' where
    "seller_create_stocks to_int rows ids = (Inr s, ids')"
    by (elim exE)
  then have "market_create_stocks to_int utcnow rows ids wh
      = (Inr (map (to_market wh (isoformat (utcnow\<lparr>microsecond := 0\<rparr>) @ ustr ''Z'')) s), ids')"
    by (simp add: market_create_stocks_refines)
  then show ?thesis by (intro exI)
qed

lemma ozon_stock_ids:
  "list_all2 (ozon_stock_of to_int) m ws \<Longrightarrow> map offer_id m = map code_of ws"
  by (induction rule: list_all2_induct) (auto simp: ozon_stock_of_def)

lemma market_stock_ids:
  "list_all2 (market_stock_of to_int wh) m ws \<Longrightarrow> map sku m = map code_of ws"
  by (induction rule: list_all2_induct) (auto simp: market_stock_of_def)

lemma matched_rows_distinct:
  assumes "distinct ids"
  shows "map code_of (matched_rows ids rows)
           = first_occurrences (filter (\<lambda>i. i \<in> set ids) (map code_of rows))"
proof -
  let ?zero = "\<lambda>v :: pyval. Inr 0 :: error + int"
  have "\<forall>w \<in> set (matched_rows ids rows). \<exists>n. resolve_stock ?zero w = Inr n"
    by (simp add: resolve_stock_def Let_def)
  from seller_create_stocks_returns [OF this] obtain out ids' where
    call: "seller_create_stocks ?zero rows ids = (Inr out, ids')"
    by (elim exE)
  then obtain m where
    loop: "stocks_loop ?zero rows ([], ids) = (Inr m, ids')" and
    out: "out = m @ map (\<lambda>i. \<lparr>offer_id = i, stock = 0\<rparr>) ids'"
    by (rule seller_create_stocks_Inr)
  from out have "take (length out - length ids') out = m"
    by simp
  with seller_create_stocks_matched_rows(1) [OF call]
  have "map offer_id m = map code_of (matched_rows ids rows)"
    by (simp add: ozon_stock_ids)
  moreover from stocks_loop_idents [OF loop assms]
  have "map offer_id m = first_occurrences (filter (\<lambda>i. i \<in> set ids) (map code_of rows))"
    by simp
  ultimately show ?thesis by simp
qed

lemma fold_remove1_distinct:
  "distinct ids \<Longrightarrow> fold remove1 xs ids = filter (\<lambda>i. i \<notin> set xs) ids"
proof (induction xs arbitrary: ids)
  case Nil
  show ?case by simp
next
  case (Cons x xs)
  have "remove1 x ids = filter (\<lambda>i. i \<noteq> x) ids"
    using Cons.prems by (simp add: distinct_remove1_removeAll removeAll_filter_not_eq) metis
  moreover have "distinct (remove1 x ids)"
    using Cons.prems by simp
  ultimately show ?case
    using Cons.IH [of "remove1 x ids"] by (auto intro: filter_cong)
qed

lemma ozon_stock_of_rule:
  assumes "ozon_stock_of to_int r w"
  shows "offer_id r = code_of w
     \<and> (py_str (dict_get w Kolichestvo) = ustr ''>10'' \<longrightarrow> stock r = 100)
     \<and> (py_str (dict_get w Kolichestvo) = ustr ''1'' \<longrightarrow> stock r = 0)
     \<and> (py_str (dict_get w Kolichestvo) \<noteq> ustr ''>10''
          \<and> py_str (dict_get w Kolichestvo) \<noteq> ustr ''1''
          \<longrightarrow> to_int (dict_get w Kolichestvo) = Inr (stock r))"
proof -
  have "ustr ''1'' \<noteq> ustr ''>10''"
    by (simp add: ustr_def)
  with assms show ?thesis
    by (auto simp: ozon_stock_of_def resolve_stock_def Let_def split: if_splits)
qed

lemma market_stock_of_rule:
  assumes "market_stock_of to_int wh r w"
  shows "sku r = code_of w \<and> warehouseId r = wh
     \<and> (\<exists>n. map count (items r) = [n]
           \<and> (py_str (dict_get w Kolichestvo) = ustr ''>10'' \<longrightarrow> n = 100)
           \<and> (py_str (dict_get w Kolichestvo) = ustr ''1'' \<longrightarrow> n = 0)
           \<and> (py_str (dict_get w Kolichestvo) \<noteq> ustr ''>10''
                \<and> py_str (dict_get w Kolichestvo) \<noteq> ustr ''1''
                \<longrightarrow> to_int (dict_get w Kolichestvo) = Inr n))"
proof -
  have ne: "ustr ''1'' \<noteq> ustr ''>10''"
    by (simp add: ustr_def)
  from assms have a: "sku r = code_of w" "warehouseId r = wh"
    "map Inr (map count (items r)) = [resolve_stock to_int w]"
    by (simp_all add: market_stock_of_def)
  from a(3) obtain n where n: "map count (items r) = [n]" "resolve_stock to_int w = Inr n"
    by (cases "map count (items r)") auto
  from n(2) ne have
    "(py_str (dict_get w Kolichestvo) = ustr ''>10'' \<longrightarrow> n = 100)
     \<and> (py_str (dict_get w Kolichestvo) = ustr ''1'' \<longrightarrow> n = 0)
     \<and> (py_str (dict_get w Kolichestvo) \<noteq> ustr ''>10''
          \<and> py_str (dict_get w Kolichestvo) \<noteq> ustr ''1''
          \<longrightarrow> to_int (dict_get w Kolichestvo) = Inr n)"
    by (auto simp: resolve_stock_def Let_def split: if_splits)
  with a(1,2) n(1) show ?thesis by auto
qed

lemma resolves_if_rule:
  assumes "py_str (dict_get w Kolichestvo) = ustr ''>10''
           \<or> py_str (dict_get w Kolichestvo) = ustr ''1''
           \<or> (\<exists>n. to_int (dict_get w Kolichestvo) = Inr n)"
  shows "\<exists>n. resolve_stock to_int w = Inr n"
  using assms by (auto simp: resolve_stock_def Let_def)

section \<open>Properties of the price reconciler\<close>


lemma prices_loop_frame: "snd (prices_loop rows (acc, ids)) = ids"
  by (induction rows arbitrary: acc) (auto split: sum.splits)

lemma market_prices_loop_frame: "snd (market_prices_loop to_int rows (acc, ids)) = ids"
  by (induction rows arbitrary: acc) (auto split: sum.splits)

lemma prices_loop_records:
  assumes "prices_loop rows (acc, ids) = (Inr out, ids')"
  shows "\<exists>m. out = acc @ m
           \<and> list_all2 ozon_price_of m (filter (\<lambda>w. code_of w \<in> set ids) rows)"
  using assms
proof (induction rows arbitrary: acc)
  case Nil
  then show ?case by simp
next
  case (Cons w rows)
  show ?case
  proof (cases "code_of w \<in> set ids")
    case False
    with Cons show ?thesis by simp
  next
    case True
    with Cons.prems obtain p where
      p: "price_conversion (dict_get w Tsena) = Inr p" and
      rest: "prices_loop rows (acc @ [ozon_price_record (code_of w) p], ids) = (Inr out, ids')"
      by (auto split: sum.splits)
    from Cons.IH [OF rest] obtain m where
      m: "out = (acc @ [ozon_price_record (code_of w) p]) @ m"
         "list_all2 ozon_price_of m (filter (\<lambda>w. code_of w \<in> set ids) rows)"
      by blast
    have "ozon_price_of (ozon_price_record (code_of w) p) w"
      using p by (simp add: ozon_price_of_def)
    with m True have "out = acc @ (ozon_price_record (code_of w) p # m)
       \<and> list_all2 ozon_price_of (ozon_price_record (code_of w) p # m)
            (filter (\<lambda>w. code_of w \<in> set ids) (w # rows))"
      by simp
    then show ?thesis by blast
  qed
qed

lemma market_prices_loop_records:
  assumes "market_prices_loop to_int rows (acc, ids) = (Inr out, ids')"
  shows "\<exists>m. out = acc @ m
           \<and> list_all2 (market_price_of to_int) m (filter (\<lambda>w. code_of w \<in> set ids) rows)"
  using assms
proof (induction rows arbitrary: acc)
  case Nil
  then show ?case by simp
next
  case (Cons w rows)
  show ?case
  proof (cases "code_of w \<in> set ids")
    case False
    with Cons show ?thesis by simp
  next
    case True
    with Cons.prems obtain p v where
      p: "price_conversion (dict_get w Tsena) = Inr p" "to_int (PStr p) = Inr v" and
      rest: "market_prices_loop to_int rows (acc @ [market_price_record (code_of w) v], ids)
               = (Inr out, ids')"
      by (auto split: sum.splits)
    from Cons.IH [OF rest] obtain m where
      m: "out = (acc @ [market_price_record (code_of w) v]) @ m"
         "list_all2 (market_price_of to_int) m (filter (\<lambda>w. code_of w \<in> set ids) rows)"
      by blast
    have "market_price_of to_int (market_price_record (code_of w) v) w"
      using p by (simp add: market_price_of_def)
    with m True have "out = acc @ (market_price_record (code_of w) v # m)
       \<and> list_all2 (market_price_of to_int) (market_price_record (code_of w) v # m)
            (filter (\<lambda>w. code_of w \<in> set ids) (w # rows))"
      by simp
    then show ?thesis by blast
  qed
qed

lemma prices_loop_returns:
  assumes "\<forall>w \<in> set rows. \<exists>s. dict_get w Tsena = PStr s"
  shows "\<exists>out. prices_loop rows (acc, ids) = (Inr out, ids)"
  using assms
proof (induction rows arbitrary: acc)
  case Nil
  show ?case by simp
next
  case (Cons w rows)
  then obtain s where "dict_get w Tsena = PStr s" by auto
  then obtain p where "price_conversion (dict_get w Tsena) = Inr p"
    using price_conversion_text by simp
  with Cons show ?case by simp
qed


lemma ozon_price_ids:
  "list_all2 ozon_price_of m ws \<Longrightarrow> map price_offer_id m = map code_of ws"
  by (induction rule: list_all2_induct) (auto simp: ozon_price_of_def ozon_price_record_def)

lemma market_price_ids:
  "list_all2 (market_price_of to_int) m ws \<Longrightarrow> map price_id m = map code_of ws"
  by (induction rule: list_all2_induct) (auto simp: market_price_of_def market_price_record_def)

lemma market_prices_loop_returns:
  assumes "\<forall>w \<in> set rows. code_of w \<in> set ids \<longrightarrow>
             (\<exists>p v. price_conversion (dict_get w Tsena) = Inr p \<and> to_int (PStr p) = Inr v)"
  shows "\<exists>out. market_prices_loop to_int rows (acc, ids) = (Inr out, ids)"
  using assms
proof (induction rows arbitrary: acc)
  case Nil
  show ?case by simp
next
  case (Cons w rows)
  show ?case
  proof (cases "code_of w \<in> set ids")
    case False
    with Cons show ?thesis by simp
  next
    case True
    with Cons.prems obtain p v where
      "price_conversion (dict_get w Tsena) = Inr p" "to_int (PStr p) = Inr v"
      by auto
    with True Cons show ?thesis by simp
  qed
qed

lemma digitless_price:
  assumes "dict_get w Tsena = PStr s"
    and "\<forall>c \<in> set (takeWhile (\<lambda>c. c \<noteq> 46) s). \<not> (48 \<le> c \<and> c \<le> 57)"
  shows "price_conversion (dict_get w Tsena) = Inr []"
proof -
  have "price_conversion (dict_get w Tsena) =
          Inr (filter (\<lambda>c. 48 \<le> c \<and> c \<le> 57) (takeWhile (\<lambda>c. c \<noteq> 46) s))"
    unfolding assms(1) by (rule price_conversion_text)
  moreover have "filter (\<lambda>c. 48 \<le> c \<and> c \<le> 57) (takeWhile (\<lambda>c. c \<noteq> 46) s) = []"
    using assms(2) by (simp add: filter_empty_conv)
  ultimately show ?thesis by simp
qed

lemma list_all2_right_member:
  "list_all2 P xs ys \<Longrightarrow> y \<in> set ys \<Longrightarrow> \<exists>x \<in> set xs. P x y"
  by (induction rule: list_all2_induct) auto

section \<open>The stock reconciler and the identifier list: the claims\<close>

text \<open>
  C1, as amended. When the identifier list has no duplicates and the call returns,
  the records carry every identifier of the list exactly once: first the feed's
  identifiers that are in the list, in feed order and each at its first occurrence,
  with the quantity resolved from that first row; then the identifiers of the list
  that no feed row has, in the order of the list, each with quantity 0. Both variants.
\<close>

theorem create_stocks_one_record_per_identifier:
  assumes "distinct ids"
  shows "(\<forall>out ids'. seller_create_stocks to_int rows ids = (Inr out, ids') \<longrightarrow>
            map offer_id out =
              first_occurrences (filter (\<lambda>i. i \<in> set ids) (map code_of rows))
              @ filter (\<lambda>i. i \<notin> set (map code_of rows)) ids
            \<and> distinct (map offer_id out) \<and> set (map offer_id out) = set ids
            \<and> (\<forall>r \<in> set out.
                  case find (\<lambda>w. code_of w = offer_id r) rows of
                    None \<Rightarrow> stock r = 0
                  | Some w \<Rightarrow> resolve_stock to_int w = Inr (stock r)))
       \<and> (\<forall>out ids'. market_create_stocks to_int utcnow rows ids wh = (Inr out, ids') \<longrightarrow>
            map sku out =
              first_occurrences (filter (\<lambda>i. i \<in> set ids) (map code_of rows))
              @ filter (\<lambda>i. i \<notin> set (map code_of rows)) ids
            \<and> distinct (map sku out) \<and> set (map sku out) = set ids
            \<and> (\<forall>r \<in> set out.
                  case find (\<lambda>w. code_of w = sku r) rows of
                    None \<Rightarrow> map count (items r) = [0]
                  | Some w \<Rightarrow> map Inr (map count (items r)) = [resolve_stock to_int w]))"
proof (intro conjI allI impI)
  fix out ids'
  assume "seller_create_stocks to_int rows ids = (Inr out, ids')"
  note s = seller_create_stocks_distinct [OF assms this]
  show "map offer_id out =
              first_occurrences (filter (\<lambda>i. i \<in> set ids) (map code_of rows))
              @ filter (\<lambda>i. i \<notin> set (map code_of rows)) ids"
    by (rule s(1))
  show "distinct (map offer_id out)" by (rule s(2))
  show "set (map offer_id out) = set ids" by (rule s(3))
  show "\<forall>r \<in> set out.
                  case find (\<lambda>w. code_of w = offer_id r) rows of
                    None \<Rightarrow> stock r = 0
                  | Some w \<Rightarrow> resolve_stock to_int w = Inr (stock r)"
    by (rule s(4))
next
  fix out ids'
  assume "market_create_stocks to_int utcnow rows ids wh = (Inr out, ids')"
  then obtain s where
    s: "seller_create_stocks to_int rows ids = (Inr s, ids')" and
    out: "out = map (to_market wh (isoformat (utcnow\<lparr>microsecond := 0\<rparr>) @ ustr ''Z'')) s"
    by (rule market_create_stocks_Inr)
  note p = seller_create_stocks_distinct [OF assms s]
  have sku: "map sku out = map offer_id s"
    unfolding out by (simp add: to_market_def market_record_def comp_def)
  show "map sku out =
              first_occurrences (filter (\<lambda>i. i \<in> set ids) (map code_of rows))
              @ filter (\<lambda>i. i \<notin> set (map code_of rows)) ids"
    unfolding sku by (rule p(1))
  show "distinct (map sku out)" unfolding sku by (rule p(2))
  show "set (map sku out) = set ids" unfolding sku by (rule p(3))
  show "\<forall>r \<in> set out.
                  case find (\<lambda>w. code_of w = sku r) rows of
                    None \<Rightarrow> map count (items r) = [0]
                  | Some w \<Rightarrow> map Inr (map count (items r)) = [resolve_stock to_int w]"
    using p(4) unfolding out
    by (auto simp: to_market_def market_record_def split: option.splits)
qed

theorem create_stocks_one_record_per_identifier_witness:
  "distinct [ustr ''123'', ustr ''456'']
   \<and> seller_create_stocks py_int [feed_row ''123'' ''5'' ''1.00'', feed_row ''123'' ''7'' ''1.00'']
         [ustr ''123'', ustr ''456'']
       = (Inr [\<lparr>offer_id = ustr ''123'', stock = 5\<rparr>, \<lparr>offer_id = ustr ''456'', stock = 0\<rparr>],
          [ustr ''456''])
   \<and> distinct (map offer_id
         [\<lparr>offer_id = ustr ''123'', stock = 5\<rparr>, \<lparr>offer_id = ustr ''456'', stock = 0\<rparr>])
   \<and> set (map offer_id
         [\<lparr>offer_id = ustr ''123'', stock = 5\<rparr>, \<lparr>offer_id = ustr ''456'', stock = 0\<rparr>])
       = set [ustr ''123'', ustr ''456'']"
proof -
  let ?rows = "[feed_row ''123'' ''5'' ''1.00'', feed_row ''123'' ''7'' ''1.00'']"
  let ?ids = "[ustr ''123'', ustr ''456'']"
  let ?out = "[\<lparr>offer_id = ustr ''123'', stock = 5\<rparr>, \<lparr>offer_id = ustr ''456'', stock = 0\<rparr>]"
  have d: "distinct ?ids"
    by (simp add: ustr_def)
  have e: "seller_create_stocks py_int ?rows ?ids = (Inr ?out, [ustr ''456''])"
    by (simp add: seller_create_stocks_def missing_loop_def feed_eval)
  note t = create_stocks_one_record_per_identifier
    [where to_int = py_int and rows = ?rows, OF d, THEN conjunct1, rule_format, OF e]
  from t have "distinct (map offer_id ?out)"
    by (elim conjE)
  moreover from t have "set (map offer_id ?out) = set ?ids"
    by (elim conjE)
  ultimately show ?thesis
    using d e by (intro conjI)
qed

text \<open>
  C1 as stated fails: with the identifier A twice in the list, A gets two records (one
  from the feed, one defaulted); and a feed row with the quantity \<open>abc\<close> makes the
  call raise, so no record is emitted at all.
\<close>

theorem create_stocks_one_record_per_identifier_counterexample:
  "seller_create_stocks py_int [feed_row ''A'' ''5'' ''1.00''] [ustr ''A'', ustr ''A'']
     = (Inr [\<lparr>offer_id = ustr ''A'', stock = 5\<rparr>, \<lparr>offer_id = ustr ''A'', stock = 0\<rparr>],
        [ustr ''A''])
   \<and> seller_create_stocks py_int [feed_row ''A'' ''abc'' ''1.00''] [ustr ''A'']
     = (Inl ValueError, [ustr ''A''])"
  by (simp add: stocks_eval feed_eval)

text \<open>
  C2. The quantity of a row: the text \<open>>10\<close> gives 100, the text \<open>1\<close> gives 0, anything
  else is what \<open>int\<close> makes of the cell. On a successful call the records before the
  defaulted ones are, in feed order, one for each matched row (a row is matched when
  fewer rows before it carry its identifier than the identifier list has occurrences
  of it), with the row's identifier and with the quantity this rule gives for the
  row's own quantity cell; the call succeeds whenever the rule gives a quantity for
  every matched row. When the rows before a row are reconciled, the row is matched and
  its quantity does not resolve, the whole call raises that error and returns no
  record. All of this in both variants. On text, Python's \<open>int\<close> fails with
  \<open>ValueError\<close> only.
\<close>

theorem quantity_resolution:
  "(py_str (dict_get w Kolichestvo) = ustr ''>10'' \<longrightarrow> resolve_stock to_int w = Inr 100)
   \<and> (py_str (dict_get w Kolichestvo) = ustr ''1'' \<longrightarrow> resolve_stock to_int w = Inr 0)
   \<and> (py_str (dict_get w Kolichestvo) \<noteq> ustr ''>10''
        \<and> py_str (dict_get w Kolichestvo) \<noteq> ustr ''1''
        \<longrightarrow> resolve_stock to_int w = to_int (dict_get w Kolichestvo))
   \<and> (\<forall>out ids1 e.
          seller_create_stocks to_int pre ids = (Inr out, ids1)
          \<and> code_of w \<in> set ids1 \<and> resolve_stock to_int w = Inl e
          \<longrightarrow> seller_create_stocks to_int (pre @ w # post) ids = (Inl e, ids1))
   \<and> (\<forall>out ids1 e.
          market_create_stocks to_int utcnow pre ids wh = (Inr out, ids1)
          \<and> code_of w \<in> set ids1 \<and> resolve_stock to_int w = Inl e
          \<longrightarrow> market_create_stocks to_int utcnow (pre @ w # post) ids wh = (Inl e, ids1))
   \<and> (\<forall>out ids'.
          seller_create_stocks to_int rows ids = (Inr out, ids')
          \<longrightarrow> (\<forall>r \<in> set (take (length out - length ids') out).
                 \<exists>v \<in> set rows. code_of v = offer_id r
                    \<and> resolve_stock to_int v = Inr (stock r)))
   \<and> (\<forall>s e. py_int (PStr s) = Inl e \<longrightarrow> e = ValueError)
   \<and> (\<forall>out ids'.
          seller_create_stocks to_int rows ids = (Inr out, ids')
          \<longrightarrow> list_all2
                (\<lambda>r v. offer_id r = code_of v
                   \<and> (py_str (dict_get v Kolichestvo) = ustr ''>10'' \<longrightarrow> stock r = 100)
                   \<and> (py_str (dict_get v Kolichestvo) = ustr ''1'' \<longrightarrow> stock r = 0)
                   \<and> (py_str (dict_get v Kolichestvo) \<noteq> ustr ''>10''
                        \<and> py_str (dict_get v Kolichestvo) \<noteq> ustr ''1''
                        \<longrightarrow> to_int (dict_get v Kolichestvo) = Inr (stock r)))
                (take (length out - length ids') out) (matched_rows ids rows))
   \<and> (\<forall>out ids'.
          market_create_stocks to_int utcnow rows ids wh = (Inr out, ids')
          \<longrightarrow> list_all2
                (\<lambda>r v. sku r = code_of v \<and> warehouseId r = wh
                   \<and> (\<exists>n. map count (items r) = [n]
                         \<and> (py_str (dict_get v Kolichestvo) = ustr ''>10'' \<longrightarrow> n = 100)
                         \<and> (py_str (dict_get v Kolichestvo) = ustr ''1'' \<longrightarrow> n = 0)
                         \<and> (py_str (dict_get v Kolichestvo) \<noteq> ustr ''>10''
                              \<and> py_str (dict_get v Kolichestvo) \<noteq> ustr ''1''
                              \<longrightarrow> to_int (dict_get v Kolichestvo) = Inr n)))
                (take (length out - length ids') out) (matched_rows ids rows))
   \<and> ((\<forall>v \<in> set (matched_rows ids rows).
           py_str (dict_get v Kolichestvo) = ustr ''>10''
           \<or> py_str (dict_get v Kolichestvo) = ustr ''1''
           \<or> (\<exists>n. to_int (dict_get v Kolichestvo) = Inr n))
        \<longrightarrow> (\<exists>out ids'. seller_create_stocks to_int rows ids = (Inr out, ids'))
            \<and> (\<exists>out ids'. market_create_stocks to_int utcnow rows ids wh = (Inr out, ids')))"
proof -
  have c1: "py_str (dict_get w Kolichestvo) = ustr ''>10'' \<longrightarrow> resolve_stock to_int w = Inr 100"
    by (simp add: resolve_stock_def)
  have c2: "py_str (dict_get w Kolichestvo) = ustr ''1'' \<longrightarrow> resolve_stock to_int w = Inr 0"
    by (simp add: resolve_stock_def ustr_def)
  have c3: "py_str (dict_get w Kolichestvo) \<noteq> ustr ''>10''
        \<and> py_str (dict_get w Kolichestvo) \<noteq> ustr ''1''
        \<longrightarrow> resolve_stock to_int w = to_int (dict_get w Kolichestvo)"
    by (simp add: resolve_stock_def)
  have c4: "\<forall>out ids1 e.
          seller_create_stocks to_int pre ids = (Inr out, ids1)
          \<and> code_of w \<in> set ids1 \<and> resolve_stock to_int w = Inl e
          \<longrightarrow> seller_create_stocks to_int (pre @ w # post) ids = (Inl e, ids1)"
    using seller_create_stocks_fails by blast
  have c5: "\<forall>out ids1 e.
          market_create_stocks to_int utcnow pre ids wh = (Inr out, ids1)
          \<and> code_of w \<in> set ids1 \<and> resolve_stock to_int w = Inl e
          \<longrightarrow> market_create_stocks to_int utcnow (pre @ w # post) ids wh = (Inl e, ids1)"
    using market_create_stocks_fails by blast
  have c6: "\<forall>out ids'.
          seller_create_stocks to_int rows ids = (Inr out, ids')
          \<longrightarrow> (\<forall>r \<in> set (take (length out - length ids') out).
                 \<exists>v \<in> set rows. code_of v = offer_id r
                    \<and> resolve_stock to_int v = Inr (stock r))"
  proof (intro allI impI)
    fix out ids'
    assume "seller_create_stocks to_int rows ids = (Inr out, ids')"
    from seller_create_stocks_matched [OF this] obtain m where
      out: "out = m @ map (\<lambda>i. \<lparr>offer_id = i, stock = 0\<rparr>) ids'" and
      m: "\<forall>r \<in> set m. \<exists>w \<in> set rows.
             code_of w = offer_id r \<and> resolve_stock to_int w = Inr (stock r)"
      by blast
    from out have "take (length out - length ids') out = m"
      by simp
    with m show "\<forall>r \<in> set (take (length out - length ids') out).
                 \<exists>v \<in> set rows. code_of v = offer_id r
                    \<and> resolve_stock to_int v = Inr (stock r)"
      by simp
  qed
  have c7: "\<forall>s e. py_int (PStr s) = Inl e \<longrightarrow> e = ValueError"
    by (auto simp: int_of_text_def split: if_splits list.splits option.splits)
  have c8: "\<forall>out ids'.
          seller_create_stocks to_int rows ids = (Inr out, ids')
          \<longrightarrow> list_all2
                (\<lambda>r v. offer_id r = code_of v
                   \<and> (py_str (dict_get v Kolichestvo) = ustr ''>10'' \<longrightarrow> stock r = 100)
                   \<and> (py_str (dict_get v Kolichestvo) = ustr ''1'' \<longrightarrow> stock r = 0)
                   \<and> (py_str (dict_get v Kolichestvo) \<noteq> ustr ''>10''
                        \<and> py_str (dict_get v Kolichestvo) \<noteq> ustr ''1''
                        \<longrightarrow> to_int (dict_get v Kolichestvo) = Inr (stock r)))
                (take (length out - length ids') out) (matched_rows ids rows)"
  proof (intro allI impI)
    fix out ids'
    assume "seller_create_stocks to_int rows ids = (Inr out, ids')"
    from seller_create_stocks_matched_rows(1) [OF this]
    show "list_all2
                (\<lambda>r v. offer_id r = code_of v
                   \<and> (py_str (dict_get v Kolichestvo) = ustr ''>10'' \<longrightarrow> stock r = 100)
                   \<and> (py_str (dict_get v Kolichestvo) = ustr ''1'' \<longrightarrow> stock r = 0)
                   \<and> (py_str (dict_get v Kolichestvo) \<noteq> ustr ''>10''
                        \<and> py_str (dict_get v Kolichestvo) \<noteq> ustr ''1''
                        \<longrightarrow> to_int (dict_get v Kolichestvo) = Inr (stock r)))
                (take (length out - length ids') out) (matched_rows ids rows)"
      by (rule list_all2_mono) (rule ozon_stock_of_rule)
  qed
  have c9: "\<forall>out ids'.
          market_create_stocks to_int utcnow rows ids wh = (Inr out, ids')
          \<longrightarrow> list_all2
                (\<lambda>r v. sku r = code_of v \<and> warehouseId r = wh
                   \<and> (\<exists>n. map count (items r) = [n]
                         \<and> (py_str (dict_get v Kolichestvo) = ustr ''>10'' \<longrightarrow> n = 100)
                         \<and> (py_str (dict_get v Kolichestvo) = ustr ''1'' \<longrightarrow> n = 0)
                         \<and> (py_str (dict_get v Kolichestvo) \<noteq> ustr ''>10''
                              \<and> py_str (dict_get v Kolichestvo) \<noteq> ustr ''1''
                              \<longrightarrow> to_int (dict_get v Kolichestvo) = Inr n)))
                (take (length out - length ids') out) (matched_rows ids rows)"
  proof (intro allI impI)
    fix out ids'
    assume "market_create_stocks to_int utcnow rows ids wh = (Inr out, ids')"
    from market_create_stocks_matched_rows(1) [OF this]
    show "list_all2
                (\<lambda>r v. sku r = code_of v \<and> warehouseId r = wh
                   \<and> (\<exists>n. map count (items r) = [n]
                         \<and> (py_str (dict_get v Kolichestvo) = ustr ''>10'' \<longrightarrow> n = 100)
                         \<and> (py_str (dict_get v Kolichestvo) = ustr ''1'' \<longrightarrow> n = 0)
                         \<and> (py_str (dict_get v Kolichestvo) \<noteq> ustr ''>10''
                              \<and> py_str (dict_get v Kolichestvo) \<noteq> ustr ''1''
                              \<longrightarrow> to_int (dict_get v Kolichestvo) = Inr n)))
                (take (length out - length ids') out) (matched_rows ids rows)"
      by (rule list_all2_mono) (rule market_stock_of_rule)
  qed
  have c10: "(\<forall>v \<in> set (matched_rows ids rows).
           py_str (dict_get v Kolichestvo) = ustr ''>10''
           \<or> py_str (dict_get v Kolichestvo) = ustr ''1''
           \<or> (\<exists>n. to_int (dict_get v Kolichestvo) = Inr n))
        \<longrightarrow> (\<exists>out ids'. seller_create_stocks to_int rows ids = (Inr out, ids'))
            \<and> (\<exists>out ids'. market_create_stocks to_int utcnow rows ids wh = (Inr out, ids'))"
  proof (intro impI)
    assume "\<forall>v \<in> set (matched_rows ids rows).
           py_str (dict_get v Kolichestvo) = ustr ''>10''
           \<or> py_str (dict_get v Kolichestvo) = ustr ''1''
           \<or> (\<exists>n. to_int (dict_get v Kolichestvo) = Inr n)"
    then have r: "\<forall>v \<in> set (matched_rows ids rows). \<exists>n. resolve_stock to_int v = Inr n"
      using resolves_if_rule by blast
    show "(\<exists>out ids'. seller_create_stocks to_int rows ids = (Inr out, ids'))
            \<and> (\<exists>out ids'. market_create_stocks to_int utcnow rows ids wh = (Inr out, ids'))"
      using seller_create_stocks_returns [OF r] market_create_stocks_returns [OF r]
      by (intro conjI)
  qed
  from c1 c2 c3 c4 c5 c6 c7 c8 c9 c10 show ?thesis
    by (intro conjI)
qed

theorem quantity_resolution_witness:
  "resolve_stock py_int (feed_row ''A'' ''>10'' ''1.00'') = Inr 100
   \<and> resolve_stock py_int (feed_row ''A'' ''1'' ''1.00'') = Inr 0
   \<and> resolve_stock py_int (feed_row ''A'' ''25'' ''1.00'') = Inr 25
   \<and> resolve_stock py_int (feed_row ''A'' ''abc'' ''1.00'') = Inl ValueError
   \<and> seller_create_stocks py_int [feed_row ''B'' ''3'' ''1.00''] [ustr ''A'', ustr ''B'']
       = (Inr [\<lparr>offer_id = ustr ''B'', stock = 3\<rparr>, \<lparr>offer_id = ustr ''A'', stock = 0\<rparr>],
          [ustr ''A''])
   \<and> seller_create_stocks py_int
         ([feed_row ''B'' ''3'' ''1.00''] @ feed_row ''A'' ''abc'' ''1.00'' # [])
         [ustr ''A'', ustr ''B'']
       = (Inl ValueError, [ustr ''A''])
   \<and> matched_rows [ustr ''A'', ustr ''B''] [feed_row ''B'' ''3'' ''1.00'']
       = [feed_row ''B'' ''3'' ''1.00'']
   \<and> list_all2
        (\<lambda>r v. offer_id r = code_of v
           \<and> (py_str (dict_get v Kolichestvo) = ustr ''>10'' \<longrightarrow> stock r = 100)
           \<and> (py_str (dict_get v Kolichestvo) = ustr ''1'' \<longrightarrow> stock r = 0)
           \<and> (py_str (dict_get v Kolichestvo) \<noteq> ustr ''>10''
                \<and> py_str (dict_get v Kolichestvo) \<noteq> ustr ''1''
                \<longrightarrow> py_int (dict_get v Kolichestvo) = Inr (stock r)))
        (take (length [\<lparr>offer_id = ustr ''B'', stock = 3\<rparr>, \<lparr>offer_id = ustr ''A'', stock = 0\<rparr>]
                 - length [ustr ''A''])
           [\<lparr>offer_id = ustr ''B'', stock = 3\<rparr>, \<lparr>offer_id = ustr ''A'', stock = 0\<rparr>])
        (matched_rows [ustr ''A'', ustr ''B''] [feed_row ''B'' ''3'' ''1.00''])"
proof -
  let ?w = "feed_row ''A'' ''abc'' ''1.00''"
  let ?pre = "[feed_row ''B'' ''3'' ''1.00'']"
  let ?ids = "[ustr ''A'', ustr ''B'']"
  have a: "resolve_stock py_int (feed_row ''A'' ''>10'' ''1.00'') = Inr 100"
    by (simp add: feed_eval)
  have b: "resolve_stock py_int (feed_row ''A'' ''1'' ''1.00'') = Inr 0"
    by (simp add: feed_eval)
  have c: "resolve_stock py_int (feed_row ''A'' ''25'' ''1.00'') = Inr 25"
    by (simp add: feed_eval)
  have f: "resolve_stock py_int ?w = Inl ValueError"
    by (simp add: feed_eval)
  have p: "seller_create_stocks py_int ?pre ?ids
       = (Inr [\<lparr>offer_id = ustr ''B'', stock = 3\<rparr>, \<lparr>offer_id = ustr ''A'', stock = 0\<rparr>],
          [ustr ''A''])"
    by (simp add: seller_create_stocks_def missing_loop_def feed_eval)
  have i: "code_of ?w \<in> set [ustr ''A'']"
    by (simp add: feed_eval)
  have m: "matched_rows ?ids ?pre = ?pre"
    by (simp add: matched_rows_def feed_eval)
  note q = quantity_resolution
    [where to_int = py_int and w = ?w and pre = ?pre and ids = ?ids and post = "[]"
       and rows = ?pre]
  note t = q [THEN conjunct2, THEN conjunct2, THEN conjunct2, THEN conjunct1, rule_format,
     OF conjI [OF p conjI [OF i f]]]
  note s = q [THEN conjunct2, THEN conjunct2, THEN conjunct2, THEN conjunct2, THEN conjunct2,
     THEN conjunct2, THEN conjunct2, THEN conjunct1, THEN spec, THEN spec, THEN mp, OF p]
  from a b c f p t m s show ?thesis
    by (intro conjI)
qed

lemma market_stock_member:
  assumes "market_create_stocks to_int utcnow rows ids wh = (Inr out, ids')" and "r \<in> set out"
  obtains s sout where "seller_create_stocks to_int rows ids = (Inr sout, ids')"
    and "s \<in> set sout"
    and "r = market_record (offer_id s) wh (stock s) (isoformat (utcnow\<lparr>microsecond := 0\<rparr>) @ ustr ''Z'')"
proof -
  from assms(1) obtain sout where
    s: "seller_create_stocks to_int rows ids = (Inr sout, ids')" and
    out: "out = map (to_market wh (isoformat (utcnow\<lparr>microsecond := 0\<rparr>) @ ustr ''Z'')) sout"
    by (rule market_create_stocks_Inr)
  from assms(2) out obtain x where "x \<in> set sout"
    "r = to_market wh (isoformat (utcnow\<lparr>microsecond := 0\<rparr>) @ ustr ''Z'') x"
    by auto
  with s that show thesis
    by (simp add: to_market_def)
qed

text \<open>
  C3, as amended. On a successful call the quantity of every record is 100, 0, or the
  integer \<open>int\<close> reads from the quantity of a feed row with the record's identifier; it
  is non-negative when \<open>int\<close> reads no negative number from a quantity of the feed.
  Both variants.
\<close>

theorem stock_quantities:
  "(\<forall>out ids'. seller_create_stocks to_int rows ids = (Inr out, ids') \<longrightarrow>
      (\<forall>r \<in> set out.
          stock r = 100 \<or> stock r = 0
          \<or> (\<exists>w \<in> set rows. code_of w = offer_id r
                \<and> to_int (dict_get w Kolichestvo) = Inr (stock r)))
      \<and> ((\<forall>w \<in> set rows. \<forall>v. to_int (dict_get w Kolichestvo) = Inr v \<longrightarrow> 0 \<le> v)
           \<longrightarrow> (\<forall>r \<in> set out. 0 \<le> stock r)))
   \<and> (\<forall>out ids'. market_create_stocks to_int utcnow rows ids wh = (Inr out, ids') \<longrightarrow>
      (\<forall>r \<in> set out. \<forall>it \<in> set (items r).
          count it = 100 \<or> count it = 0
          \<or> (\<exists>w \<in> set rows. code_of w = sku r
                \<and> to_int (dict_get w Kolichestvo) = Inr (count it)))
      \<and> ((\<forall>w \<in> set rows. \<forall>v. to_int (dict_get w Kolichestvo) = Inr v \<longrightarrow> 0 \<le> v)
           \<longrightarrow> (\<forall>r \<in> set out. \<forall>it \<in> set (items r). 0 \<le> count it)))"
proof (intro conjI allI impI ballI)
  fix out ids' r
  assume "seller_create_stocks to_int rows ids = (Inr out, ids')" and "r \<in> set out"
  then show "stock r = 100 \<or> stock r = 0
          \<or> (\<exists>w \<in> set rows. code_of w = offer_id r
                \<and> to_int (dict_get w Kolichestvo) = Inr (stock r))"
    by (rule seller_stock_values)
next
  fix out ids' r
  assume "seller_create_stocks to_int rows ids = (Inr out, ids')" and "r \<in> set out"
    and nonneg: "\<forall>w \<in> set rows. \<forall>v. to_int (dict_get w Kolichestvo) = Inr v \<longrightarrow> 0 \<le> v"
  from seller_stock_values [OF this(1,2)] nonneg show "0 \<le> stock r"
    by auto
next
  fix out ids' r it
  assume call: "market_create_stocks to_int utcnow rows ids wh = (Inr out, ids')" "r \<in> set out"
    and it: "it \<in> set (items r)"
  from call obtain s sout where
    s: "seller_create_stocks to_int rows ids = (Inr sout, ids')" "s \<in> set sout" and
    r: "r = market_record (offer_id s) wh (stock s)
              (isoformat (utcnow\<lparr>microsecond := 0\<rparr>) @ ustr ''Z'')"
    by (rule market_stock_member)
  from r it have "count it = stock s" "sku r = offer_id s"
    by (auto simp: market_record_def)
  with seller_stock_values [OF s]
  show "count it = 100 \<or> count it = 0
          \<or> (\<exists>w \<in> set rows. code_of w = sku r
                \<and> to_int (dict_get w Kolichestvo) = Inr (count it))"
    by simp
next
  fix out ids' r it
  assume call: "market_create_stocks to_int utcnow rows ids wh = (Inr out, ids')" "r \<in> set out"
    and it: "it \<in> set (items r)"
    and nonneg: "\<forall>w \<in> set rows. \<forall>v. to_int (dict_get w Kolichestvo) = Inr v \<longrightarrow> 0 \<le> v"
  from call obtain s sout where
    s: "seller_create_stocks to_int rows ids = (Inr sout, ids')" "s \<in> set sout" and
    r: "r = market_record (offer_id s) wh (stock s)
              (isoformat (utcnow\<lparr>microsecond := 0\<rparr>) @ ustr ''Z'')"
    by (rule market_stock_member)
  from r it have "count it = stock s"
    by (auto simp: market_record_def)
  with seller_stock_values [OF s] nonneg show "0 \<le> count it"
    by auto
qed

theorem stock_quantities_witness:
  "seller_create_stocks py_int [feed_row ''A'' ''7'' ''1.00'', feed_row ''B'' ''>10'' ''1.00'']
       [ustr ''A'', ustr ''B'', ustr ''C'']
     = (Inr [\<lparr>offer_id = ustr ''A'', stock = 7\<rparr>, \<lparr>offer_id = ustr ''B'', stock = 100\<rparr>,
             \<lparr>offer_id = ustr ''C'', stock = 0\<rparr>], [ustr ''C''])
   \<and> (\<forall>w \<in> set [feed_row ''A'' ''7'' ''1.00'', feed_row ''B'' ''>10'' ''1.00''].
          \<forall>v. py_int (dict_get w Kolichestvo) = Inr v \<longrightarrow> 0 \<le> v) = True
   \<and> 0 \<le> stock \<lparr>offer_id = ustr ''A'', stock = 7\<rparr>"
proof -
  let ?rows = "[feed_row ''A'' ''7'' ''1.00'', feed_row ''B'' ''>10'' ''1.00'']"
  let ?ids = "[ustr ''A'', ustr ''B'', ustr ''C'']"
  let ?out = "[\<lparr>offer_id = ustr ''A'', stock = 7\<rparr>, \<lparr>offer_id = ustr ''B'', stock = 100\<rparr>,
             \<lparr>offer_id = ustr ''C'', stock = 0\<rparr>]"
  have e: "seller_create_stocks py_int ?rows ?ids = (Inr ?out, [ustr ''C''])"
    by (simp add: seller_create_stocks_def missing_loop_def feed_eval)
  have n: "\<forall>w \<in> set ?rows. \<forall>v. py_int (dict_get w Kolichestvo) = Inr v \<longrightarrow> 0 \<le> v"
    by (simp add: feed_eval)
  note t = stock_quantities
    [where to_int = py_int and rows = ?rows and ids = ?ids,
     THEN conjunct1, THEN spec, THEN spec, THEN mp, OF e, THEN conjunct2, THEN mp, OF n]
  from t have "0 \<le> stock \<lparr>offer_id = ustr ''A'', stock = 7\<rparr>"
    by simp
  with e n [THEN eqTrueI] show ?thesis by (intro conjI)
qed

text \<open>
  C3 as stated fails: the quantity text \<open>-5\<close> is a valid integer text, the call
  succeeds and the record carries the negative quantity.
\<close>

theorem stock_quantities_counterexample:
  "seller_create_stocks py_int [feed_row ''A'' ''-5'' ''1.00''] [ustr ''A'']
     = (Inr [\<lparr>offer_id = ustr ''A'', stock = - 5\<rparr>], [])"
  by (simp add: seller_create_stocks_def missing_loop_def feed_eval)

text \<open>
  C10. Every record of a successful Yandex.Market \<open>create_stocks\<close> call, matched or
  defaulted, has exactly one item, and its \<open>updatedAt\<close> is the one timestamp made from
  the single reading of the clock: the reading without its microseconds in ISO format,
  followed by \<open>Z\<close>.
\<close>

theorem market_stocks_one_timestamp:
  assumes "market_create_stocks to_int utcnow rows ids wh = (Inr out, ids')"
  shows "\<forall>r \<in> set out. \<exists>n.
           items r = [\<lparr>count = n, item_type = ustr ''FIT'',
                       updatedAt = isoformat (utcnow\<lparr>microsecond := 0\<rparr>) @ ustr ''Z''\<rparr>]"
proof
  fix r assume "r \<in> set out"
  with assms obtain s sout where
    "seller_create_stocks to_int rows ids = (Inr sout, ids')" "s \<in> set sout"
    "r = market_record (offer_id s) wh (stock s)
           (isoformat (utcnow\<lparr>microsecond := 0\<rparr>) @ ustr ''Z'')"
    by (rule market_stock_member)
  then show "\<exists>n. items r = [\<lparr>count = n, item_type = ustr ''FIT'',
                       updatedAt = isoformat (utcnow\<lparr>microsecond := 0\<rparr>) @ ustr ''Z''\<rparr>]"
    by (simp add: market_record_def)
qed

theorem market_stocks_one_timestamp_witness:
  "market_create_stocks py_int
     \<lparr>year = 2024, month = 1, day = 15, hour = 10, minute = 30, second = 0, microsecond = 250\<rparr>
     [feed_row ''123'' ''5'' ''1.00''] [ustr ''123'', ustr ''456''] (ustr ''fbs'')
     = (Inr [\<lparr>sku = ustr ''123'', warehouseId = ustr ''fbs'',
              items = [\<lparr>count = 5, item_type = ustr ''FIT'',
                        updatedAt = ustr ''2024-01-15T10:30:00Z''\<rparr>]\<rparr>,
             \<lparr>sku = ustr ''456'', warehouseId = ustr ''fbs'',
              items = [\<lparr>count = 0, item_type = ustr ''FIT'',
                        updatedAt = ustr ''2024-01-15T10:30:00Z''\<rparr>]\<rparr>],
        [ustr ''456''])
   \<and> (\<exists>n. items \<lparr>sku = ustr ''456'', warehouseId = ustr ''fbs'',
              items = [\<lparr>count = 0, item_type = ustr ''FIT'',
                        updatedAt = ustr ''2024-01-15T10:30:00Z''\<rparr>]\<rparr>
          = [\<lparr>count = n, item_type = ustr ''FIT'',
              updatedAt = isoformat (\<lparr>year = 2024, month = 1, day = 15, hour = 10, minute = 30,
                 second = 0, microsecond = 250\<rparr>\<lparr>microsecond := 0\<rparr>) @ ustr ''Z''\<rparr>])"
proof -
  let ?now = "\<lparr>year = 2024, month = 1, day = 15, hour = 10, minute = 30, second = 0,
               microsecond = 250\<rparr>"
  let ?a = "\<lparr>sku = ustr ''123'', warehouseId = ustr ''fbs'',
              items = [\<lparr>count = 5, item_type = ustr ''FIT'',
                        updatedAt = ustr ''2024-01-15T10:30:00Z''\<rparr>]\<rparr>"
  let ?b = "\<lparr>sku = ustr ''456'', warehouseId = ustr ''fbs'',
              items = [\<lparr>count = 0, item_type = ustr ''FIT'',
                        updatedAt = ustr ''2024-01-15T10:30:00Z''\<rparr>]\<rparr>"
  have e: "market_create_stocks py_int ?now [feed_row ''123'' ''5'' ''1.00'']
             [ustr ''123'', ustr ''456''] (ustr ''fbs'') = (Inr [?a, ?b], [ustr ''456''])"
    by (simp add: stocks_eval feed_eval)
  have "?b \<in> set [?a, ?b]" by simp
  with market_stocks_one_timestamp [OF e]
  have "\<exists>n. items ?b = [\<lparr>count = n, item_type = ustr ''FIT'',
              updatedAt = isoformat (?now\<lparr>microsecond := 0\<rparr>) @ ustr ''Z''\<rparr>]"
    by (rule bspec)
  with e show ?thesis by (intro conjI)
qed

text \<open>
  C8. \<open>create_prices\<close> leaves the identifier list as it was, whether it returns or
  raises (both variants). \<open>create_stocks\<close> does not: on return, the list has lost one
  occurrence of the identifier of every feed row, as far as it had one left when the
  row came up, that is one occurrence for each matched row; what is left of it is the
  identifiers of the defaulted records. With a duplicate-free list, what is left is
  the identifiers that no feed row carries.
\<close>

theorem create_prices_keeps_offer_ids:
  "snd (seller_create_prices rows ids) = ids
   \<and> snd (market_create_prices to_int rows ids) = ids
   \<and> (\<forall>out ids'. seller_create_stocks to_int rows ids = (Inr out, ids') \<longrightarrow>
        ids' = fold remove1 (map code_of rows) ids
        \<and> ids' = fold remove1 (map code_of (matched_rows ids rows)) ids
        \<and> (\<forall>c. count_list ids' c = count_list ids c - count_list (map code_of rows) c)
        \<and> map offer_id out = map code_of (matched_rows ids rows) @ ids'
        \<and> length ids' + length (matched_rows ids rows) = length ids
        \<and> (distinct ids \<longrightarrow> ids' = filter (\<lambda>i. i \<notin> set (map code_of rows)) ids))
   \<and> (\<forall>out ids'. market_create_stocks to_int utcnow rows ids wh = (Inr out, ids') \<longrightarrow>
        ids' = fold remove1 (map code_of rows) ids
        \<and> ids' = fold remove1 (map code_of (matched_rows ids rows)) ids
        \<and> (\<forall>c. count_list ids' c = count_list ids c - count_list (map code_of rows) c)
        \<and> map sku out = map code_of (matched_rows ids rows) @ ids'
        \<and> length ids' + length (matched_rows ids rows) = length ids
        \<and> (distinct ids \<longrightarrow> ids' = filter (\<lambda>i. i \<notin> set (map code_of rows)) ids))"
proof -
  have seller: "ids' = fold remove1 (map code_of rows) ids
        \<and> ids' = fold remove1 (map code_of (matched_rows ids rows)) ids
        \<and> (\<forall>c. count_list ids' c = count_list ids c - count_list (map code_of rows) c)
        \<and> map offer_id out = map code_of (matched_rows ids rows) @ ids'
        \<and> length ids' + length (matched_rows ids rows) = length ids
        \<and> (distinct ids \<longrightarrow> ids' = filter (\<lambda>i. i \<notin> set (map code_of rows)) ids)"
    if call: "seller_create_stocks to_int rows ids = (Inr out, ids')" for out ids'
  proof -
    note p = seller_create_stocks_matched_rows [OF call]
    from seller_create_stocks_matched [OF call] obtain m where
      m: "out = m @ map (\<lambda>i. \<lparr>offer_id = i, stock = 0\<rparr>) ids'"
         "ids' = fold remove1 (map offer_id m) ids"
         "length ids' + length m = length ids"
      by blast
    from m(1) have t: "take (length out - length ids') out = m"
      by simp
    with p(1) have all2: "list_all2 (ozon_stock_of to_int) m (matched_rows ids rows)"
      by simp
    then have codes: "map offer_id m = map code_of (matched_rows ids rows)"
      by (rule ozon_stock_ids)
    from all2 have len: "length m = length (matched_rows ids rows)"
      by (rule list_all2_lengthD)
    have 1: "ids' = fold remove1 (map code_of rows) ids"
      by (rule p(3))
    have 2: "ids' = fold remove1 (map code_of (matched_rows ids rows)) ids"
      using m(2) codes by simp
    have 3: "\<forall>c. count_list ids' c = count_list ids c - count_list (map code_of rows) c"
      unfolding 1 by (simp add: count_list_fold_remove1)
    have 4: "map offer_id out = map code_of (matched_rows ids rows) @ ids'"
      using m(1) codes by (simp add: comp_def)
    have 5: "length ids' + length (matched_rows ids rows) = length ids"
      using m(3) len by simp
    have 6: "distinct ids \<longrightarrow> ids' = filter (\<lambda>i. i \<notin> set (map code_of rows)) ids"
      unfolding 1 by (intro impI) (rule fold_remove1_distinct)
    from 1 2 3 4 5 6 show ?thesis
      by (intro conjI)
  qed
  have market: "ids' = fold remove1 (map code_of rows) ids
        \<and> ids' = fold remove1 (map code_of (matched_rows ids rows)) ids
        \<and> (\<forall>c. count_list ids' c = count_list ids c - count_list (map code_of rows) c)
        \<and> map sku out = map code_of (matched_rows ids rows) @ ids'
        \<and> length ids' + length (matched_rows ids rows) = length ids
        \<and> (distinct ids \<longrightarrow> ids' = filter (\<lambda>i. i \<notin> set (map code_of rows)) ids)"
    if call: "market_create_stocks to_int utcnow rows ids wh = (Inr out, ids')" for out ids'
  proof -
    from call obtain s where
      s: "seller_create_stocks to_int rows ids = (Inr s, ids')" and
      out: "out = map (to_market wh (isoformat (utcnow\<lparr>microsecond := 0\<rparr>) @ ustr ''Z'')) s"
      by (rule market_create_stocks_Inr)
    from out have sku: "map sku out = map offer_id s"
      by (simp add: to_market_def market_record_def comp_def)
    from seller [OF s] show ?thesis
      unfolding sku .
  qed
  have "snd (seller_create_prices rows ids) = ids"
    by (simp add: seller_create_prices_def prices_loop_frame)
  moreover have "snd (market_create_prices to_int rows ids) = ids"
    by (simp add: market_create_prices_def market_prices_loop_frame)
  moreover have "\<forall>out ids'. seller_create_stocks to_int rows ids = (Inr out, ids') \<longrightarrow>
        ids' = fold remove1 (map code_of rows) ids
        \<and> ids' = fold remove1 (map code_of (matched_rows ids rows)) ids
        \<and> (\<forall>c. count_list ids' c = count_list ids c - count_list (map code_of rows) c)
        \<and> map offer_id out = map code_of (matched_rows ids rows) @ ids'
        \<and> length ids' + length (matched_rows ids rows) = length ids
        \<and> (distinct ids \<longrightarrow> ids' = filter (\<lambda>i. i \<notin> set (map code_of rows)) ids)"
    by (intro allI impI) (rule seller)
  moreover have "\<forall>out ids'. market_create_stocks to_int utcnow rows ids wh = (Inr out, ids') \<longrightarrow>
        ids' = fold remove1 (map code_of rows) ids
        \<and> ids' = fold remove1 (map code_of (matched_rows ids rows)) ids
        \<and> (\<forall>c. count_list ids' c = count_list ids c - count_list (map code_of rows) c)
        \<and> map sku out = map code_of (matched_rows ids rows) @ ids'
        \<and> length ids' + length (matched_rows ids rows) = length ids
        \<and> (distinct ids \<longrightarrow> ids' = filter (\<lambda>i. i \<notin> set (map code_of rows)) ids)"
    by (intro allI impI) (rule market)
  ultimately show ?thesis
    by (intro conjI)
qed

theorem create_prices_keeps_offer_ids_witness:
  "seller_create_prices [feed_row ''123'' ''5'' ''1.00''] [ustr ''123'', ustr ''456'']
     = (Inr [ozon_price_record (ustr ''123'') (ustr ''1'')], [ustr ''123'', ustr ''456''])
   \<and> seller_create_stocks py_int [feed_row ''123'' ''5'' ''1.00''] [ustr ''123'', ustr ''456'']
     = (Inr [\<lparr>offer_id = ustr ''123'', stock = 5\<rparr>, \<lparr>offer_id = ustr ''456'', stock = 0\<rparr>],
        [ustr ''456''])
   \<and> [ustr ''456'']
     = fold remove1 (map code_of [feed_row ''123'' ''5'' ''1.00'']) [ustr ''123'', ustr ''456'']
   \<and> fold remove1 (map code_of [feed_row ''123'' ''5'' ''1.00'']) [ustr ''123'', ustr ''456'']
     \<noteq> [ustr ''123'', ustr ''456'']"
proof -
  let ?rows = "[feed_row ''123'' ''5'' ''1.00'']"
  let ?ids = "[ustr ''123'', ustr ''456'']"
  have p: "seller_create_prices ?rows ?ids
     = (Inr [ozon_price_record (ustr ''123'') (ustr ''1'')], ?ids)"
    by (simp add: seller_create_prices_def feed_eval)
  have e: "seller_create_stocks py_int ?rows ?ids
     = (Inr [\<lparr>offer_id = ustr ''123'', stock = 5\<rparr>, \<lparr>offer_id = ustr ''456'', stock = 0\<rparr>],
        [ustr ''456''])"
    by (simp add: seller_create_stocks_def missing_loop_def feed_eval)
  note t = create_prices_keeps_offer_ids
    [where to_int = py_int and rows = ?rows and ids = ?ids,
     THEN conjunct2, THEN conjunct2, THEN conjunct1, THEN spec, THEN spec, THEN mp, OF e,
     THEN conjunct1]
  have n: "fold remove1 (map code_of ?rows) ?ids \<noteq> ?ids"
    by (simp add: feed_eval)
  from p e t n show ?thesis
    by (intro conjI)
qed

section \<open>The price reconciler: the claims\<close>

lemma seller_create_prices_records:
  assumes "seller_create_prices rows ids = (Inr out, ids')"
  shows "list_all2 ozon_price_of out (filter (\<lambda>w. code_of w \<in> set ids) rows)"
    and "map price_offer_id out = filter (\<lambda>i. i \<in> set ids) (map code_of rows)"
proof -
  from assms have "prices_loop rows ([], ids) = (Inr out, ids')"
    by (simp add: seller_create_prices_def)
  from prices_loop_records [OF this]
  show r: "list_all2 ozon_price_of out (filter (\<lambda>w. code_of w \<in> set ids) rows)"
    by simp
  from ozon_price_ids [OF r]
  show "map price_offer_id out = filter (\<lambda>i. i \<in> set ids) (map code_of rows)"
    by (simp add: filter_map comp_def)
qed

lemma market_create_prices_records:
  assumes "market_create_prices to_int rows ids = (Inr out, ids')"
  shows "list_all2 (market_price_of to_int) out (filter (\<lambda>w. code_of w \<in> set ids) rows)"
    and "map price_id out = filter (\<lambda>i. i \<in> set ids) (map code_of rows)"
proof -
  from assms have "market_prices_loop to_int rows ([], ids) = (Inr out, ids')"
    by (simp add: market_create_prices_def)
  from market_prices_loop_records [OF this]
  show r: "list_all2 (market_price_of to_int) out (filter (\<lambda>w. code_of w \<in> set ids) rows)"
    by simp
  from market_price_ids [OF r]
  show "map price_id out = filter (\<lambda>i. i \<in> set ids) (map code_of rows)"
    by (simp add: filter_map comp_def)
qed

text \<open>
  C7, as amended. Whenever \<open>create_prices\<close> returns, its records are, in feed order, one
  for each feed row whose identifier is in the list, and none else: the Ozon record
  carries the row's normalized price, the Yandex.Market record the integer read from
  it. The Ozon variant returns for every feed with text prices. The Yandex.Market
  variant returns when \<open>int\<close> accepts the normalized price of every such row.
\<close>

theorem create_prices_feed_rows_in_set:
  "(\<forall>out ids'. seller_create_prices rows ids = (Inr out, ids') \<longrightarrow>
       list_all2 ozon_price_of out (filter (\<lambda>w. code_of w \<in> set ids) rows)
       \<and> map price_offer_id out = filter (\<lambda>i. i \<in> set ids) (map code_of rows))
   \<and> ((\<forall>w \<in> set rows. \<exists>s. dict_get w Tsena = PStr s)
        \<longrightarrow> (\<exists>out. seller_create_prices rows ids = (Inr out, ids)))
   \<and> (\<forall>out ids'. market_create_prices to_int rows ids = (Inr out, ids') \<longrightarrow>
       list_all2 (market_price_of to_int) out (filter (\<lambda>w. code_of w \<in> set ids) rows)
       \<and> map price_id out = filter (\<lambda>i. i \<in> set ids) (map code_of rows))
   \<and> ((\<forall>w \<in> set rows. code_of w \<in> set ids \<longrightarrow>
           (\<exists>p v. price_conversion (dict_get w Tsena) = Inr p \<and> to_int (PStr p) = Inr v))
        \<longrightarrow> (\<exists>out. market_create_prices to_int rows ids = (Inr out, ids)))"
proof (intro conjI allI impI)
  fix out ids'
  assume a: "seller_create_prices rows ids = (Inr out, ids')"
  show "list_all2 ozon_price_of out (filter (\<lambda>w. code_of w \<in> set ids) rows)"
    using a by (rule seller_create_prices_records)
  show "map price_offer_id out = filter (\<lambda>i. i \<in> set ids) (map code_of rows)"
    using a by (rule seller_create_prices_records)
next
  assume "\<forall>w \<in> set rows. \<exists>s. dict_get w Tsena = PStr s"
  then show "\<exists>out. seller_create_prices rows ids = (Inr out, ids)"
    unfolding seller_create_prices_def by (rule prices_loop_returns)
next
  fix out ids'
  assume a: "market_create_prices to_int rows ids = (Inr out, ids')"
  show "list_all2 (market_price_of to_int) out (filter (\<lambda>w. code_of w \<in> set ids) rows)"
    using a by (rule market_create_prices_records)
  show "map price_id out = filter (\<lambda>i. i \<in> set ids) (map code_of rows)"
    using a by (rule market_create_prices_records)
next
  assume "\<forall>w \<in> set rows. code_of w \<in> set ids \<longrightarrow>
           (\<exists>p v. price_conversion (dict_get w Tsena) = Inr p \<and> to_int (PStr p) = Inr v)"
  then show "\<exists>out. market_create_prices to_int rows ids = (Inr out, ids)"
    unfolding market_create_prices_def by (rule market_prices_loop_returns)
qed


theorem create_prices_feed_rows_in_set_witness:
  "seller_create_prices
       [feed_row ''123'' ''5'' ''5990.00 rub.'', feed_row ''999'' ''1'' ''1.00 rub.'']
       [ustr ''123'', ustr ''456'']
     = (Inr [ozon_price_record (ustr ''123'') (ustr ''5990'')], [ustr ''123'', ustr ''456''])
   \<and> map price_offer_id [ozon_price_record (ustr ''123'') (ustr ''5990'')]
     = filter (\<lambda>i. i \<in> set [ustr ''123'', ustr ''456''])
         (map code_of [feed_row ''123'' ''5'' ''5990.00 rub.'', feed_row ''999'' ''1'' ''1.00 rub.''])
   \<and> market_create_prices py_int
       [feed_row ''123'' ''5'' ''5990.00 rub.'', feed_row ''999'' ''1'' ''1.00 rub.'']
       [ustr ''123'', ustr ''456'']
     = (Inr [market_price_record (ustr ''123'') 5990], [ustr ''123'', ustr ''456''])"
proof -
  let ?rows = "[feed_row ''123'' ''5'' ''5990.00 rub.'', feed_row ''999'' ''1'' ''1.00 rub.'']"
  let ?ids = "[ustr ''123'', ustr ''456'']"
  have e: "seller_create_prices ?rows ?ids
     = (Inr [ozon_price_record (ustr ''123'') (ustr ''5990'')], ?ids)"
    by (simp add: seller_create_prices_def feed_eval)
  have m: "market_create_prices py_int ?rows ?ids
     = (Inr [market_price_record (ustr ''123'') 5990], ?ids)"
    by (simp add: market_create_prices_def feed_eval)
  note t = create_prices_feed_rows_in_set
    [where rows = ?rows and ids = ?ids,
     THEN conjunct1, THEN spec, THEN spec, THEN mp, OF e, THEN conjunct2]
  from e t m show ?thesis by (intro conjI)
qed

text \<open>
  C7 as stated fails in the Yandex.Market variant: both rows have their identifier in
  the list, but the second price has no digit, \<open>int\<close> raises on the empty text and no
  record is emitted.
\<close>

theorem create_prices_feed_rows_in_set_counterexample:
  "market_create_prices py_int
       [feed_row ''123'' ''5'' ''5990.00 rub.'', feed_row ''456'' ''2'' ''n/a'']
       [ustr ''123'', ustr ''456'']
     = (Inl ValueError, [ustr ''123'', ustr ''456''])"
  by (simp add: market_create_prices_def feed_eval)

text \<open>
  C9, as amended. A price text with no ASCII digit before its first full stop
  normalizes to the empty string. The Ozon \<open>create_prices\<close> tolerates it: on a feed
  with text prices the call returns, and a matched row of this kind has its record,
  with the empty price. The Yandex.Market \<open>create_prices\<close> converts the normalized
  price itself: if \<open>int\<close> rejects the empty text, as Python's does with \<open>ValueError\<close>,
  a matched row of this kind makes the call raise.
\<close>

theorem digitless_price_in_create_prices:
  assumes "dict_get w Tsena = PStr s"
    and "\<forall>c \<in> set (takeWhile (\<lambda>c. c \<noteq> 46) s). \<not> (48 \<le> c \<and> c \<le> 57)"
  shows "price_conversion (dict_get w Tsena) = Inr []
    \<and> ((\<forall>v \<in> set rows. \<exists>t. dict_get v Tsena = PStr t) \<and> w \<in> set rows \<and> code_of w \<in> set ids
         \<longrightarrow> (\<exists>out. seller_create_prices rows ids = (Inr out, ids)
                 \<and> ozon_price_record (code_of w) [] \<in> set out))
    \<and> ((\<exists>e. to_int (PStr []) = Inl e) \<and> w \<in> set rows \<and> code_of w \<in> set ids
         \<longrightarrow> (\<exists>e ids'. market_create_prices to_int rows ids = (Inl e, ids')))
    \<and> py_int (PStr []) = Inl ValueError"
proof (intro conjI impI)
  show empty: "price_conversion (dict_get w Tsena) = Inr []"
    using assms by (rule digitless_price)
  show "py_int (PStr []) = Inl ValueError"
    by (simp add: int_of_text_def strip_blanks_def)
  show "\<exists>out. seller_create_prices rows ids = (Inr out, ids)
           \<and> ozon_price_record (code_of w) [] \<in> set out"
    if "(\<forall>v \<in> set rows. \<exists>t. dict_get v Tsena = PStr t) \<and> w \<in> set rows \<and> code_of w \<in> set ids"
  proof -
    from that have "\<forall>v \<in> set rows. \<exists>t. dict_get v Tsena = PStr t"
      by (rule conjunct1)
    from prices_loop_returns [OF this, of "[]" ids]
    obtain out where out: "seller_create_prices rows ids = (Inr out, ids)"
      unfolding seller_create_prices_def by (elim exE)
    from that have mem: "w \<in> set (filter (\<lambda>w. code_of w \<in> set ids) rows)"
      by simp
    from list_all2_right_member [OF seller_create_prices_records(1) [OF out] mem]
    obtain r where "r \<in> set out" "ozon_price_of r w"
      by (elim bexE)
    with empty have "ozon_price_record (code_of w) [] \<in> set out"
      by (auto simp: ozon_price_of_def)
    with out show ?thesis by blast
  qed
  show "\<exists>e ids'. market_create_prices to_int rows ids = (Inl e, ids')"
    if "(\<exists>e. to_int (PStr []) = Inl e) \<and> w \<in> set rows \<and> code_of w \<in> set ids"
  proof (cases "market_create_prices to_int rows ids")
    case (Pair res ids')
    show ?thesis
    proof (cases res)
      case (Inl e)
      with Pair show ?thesis by blast
    next
      case (Inr out)
      with Pair have out: "market_create_prices to_int rows ids = (Inr out, ids')"
        by simp
      from that have mem: "w \<in> set (filter (\<lambda>w. code_of w \<in> set ids) rows)"
        by simp
      from list_all2_right_member [OF market_create_prices_records(1) [OF out] mem]
      obtain r where "market_price_of to_int r w"
        by (elim bexE)
      with empty obtain v where "to_int (PStr []) = Inr v"
        by (auto simp: market_price_of_def)
      with that show ?thesis by auto
    qed
  qed
qed

theorem digitless_price_in_create_prices_witness:
  "dict_get (feed_row ''A'' ''5'' ''n/a'') Tsena = PStr (ustr ''n/a'')
   \<and> price_conversion (dict_get (feed_row ''A'' ''5'' ''n/a'') Tsena) = Inr []
   \<and> seller_create_prices [feed_row ''A'' ''5'' ''n/a''] [ustr ''A'']
       = (Inr [ozon_price_record (ustr ''A'') []], [ustr ''A''])
   \<and> (\<exists>e ids'. market_create_prices py_int [feed_row ''A'' ''5'' ''n/a''] [ustr ''A'']
         = (Inl e, ids'))"
proof -
  let ?w = "feed_row ''A'' ''5'' ''n/a''"
  have p: "dict_get ?w Tsena = PStr (ustr ''n/a'')"
    by (simp add: feed_eval)
  have d: "\<forall>c \<in> set (takeWhile (\<lambda>c. c \<noteq> 46) (ustr ''n/a'')). \<not> (48 \<le> c \<and> c \<le> 57)"
    by (simp add: ustr_def)
  have s: "seller_create_prices [?w] [ustr ''A'']
       = (Inr [ozon_price_record (ustr ''A'') []], [ustr ''A''])"
    by (simp add: seller_create_prices_def feed_eval)
  have i: "(\<exists>e. py_int (PStr []) = Inl e) \<and> ?w \<in> set [?w] \<and> code_of ?w \<in> set [ustr ''A'']"
    by (simp add: feed_eval)
  note t = digitless_price_in_create_prices
    [where to_int = py_int and rows = "[?w]" and ids = "[ustr ''A'']", OF p d]
  from t have "price_conversion (dict_get ?w Tsena) = Inr []"
    by (rule conjunct1)
  moreover from t [THEN conjunct2, THEN conjunct2, THEN conjunct1, THEN mp, OF i]
  have "\<exists>e ids'. market_create_prices py_int [?w] [ustr ''A''] = (Inl e, ids')" .
  ultimately show ?thesis
    using p s by (intro conjI)
qed

text \<open>
  C9 as stated fails in the Yandex.Market variant: the reconciliation call itself
  rejects the row, with the \<open>ValueError\<close> of \<open>int('')\<close>.
\<close>

theorem digitless_price_in_create_prices_counterexample:
  "price_conversion (dict_get (feed_row ''A'' ''5'' ''abc'') Tsena) = Inr []
   \<and> market_create_prices py_int [feed_row ''A'' ''5'' ''abc''] [ustr ''A'']
       = (Inl ValueError, [ustr ''A''])"
  by (simp add: market_create_prices_def feed_eval)

end
